theory Spec2Isabelle
  imports Main "HOL-Library.Word"
begin

unbundle bit_operations_syntax

section \<open>Words, versions and errors\<close>

text \<open>
  \<open>Word\<close>, \<open>Version\<close>, \<open>size_t\<close> and pointers are 64-bit unsigned values.
  A \<open>TransactionEngine*\<close> is the address of an engine, so it is a \<open>size_t\<close> too.
\<close>

type_synonym Word = "64 word"
type_synonym Version = "64 word"
type_synonym size_t = "64 word"
type_synonym LockIndex = "64 word"

text \<open>\<open>std::numeric_limits<Version>::max()\<close>: all bits set.\<close>

definition Version_max :: Version where
  "Version_max = - 1"

text \<open>
  What ends a call early: a plain \<open>std::runtime_error\<close>, a \<open>TransactionError\<close>
  (message and the \<open>recoverable_\<close> flag), or a failed \<open>assert\<close> (the program
  aborts with the asserted expression; the asserts are taken as compiled in).
\<close>

datatype error =
    RuntimeError string
  | TransactionError string bool
  | AssertFailed string

text \<open>
  How the retry loops of \<open>Atomic\<close> and \<open>AtomicRead\<close> read an exception:
  \<open>catch (TransactionError& err)\<close> asks \<open>err.shouldRetry()\<close>, which returns
  \<open>recoverable_\<close>; \<open>catch (...)\<close> ends the transaction and rethrows.
\<close>

fun shouldRetry :: "error \<Rightarrow> bool" where
  "shouldRetry (TransactionError what retry) = retry"
| "shouldRetry (RuntimeError what) = False"
| "shouldRetry (AssertFailed what) = False"

section \<open>PooledList\<close>

text \<open>
  \<open>PooledList<_Ty, kNumEntries>\<close>: one page of \<open>kNumEntries\<close> entries
  (\<open>main_pool_\<close>, entry \<open>i\<close> at byte offset \<open>kEntrySize * i\<close>) and
  \<open>next_index_\<close>. The page is a function from the entry number to the entry; every
  access goes through \<open>GetEntry\<close>, which yields entry numbers below \<open>kNumEntries\<close>
  only. \<open>Clear\<close> resets \<open>next_index_\<close> and leaves the page as it is, so the page
  keeps the fields of earlier entries. The engine instantiates all three of its lists
  with \<open>kNumEntries = 255\<close>.
\<close>

record 'a PooledList =
  main_pool :: "nat \<Rightarrow> 'a"
  next_index :: nat

definition kNumEntries :: nat where
  "kNumEntries = 255"

definition GetEntry :: "nat \<Rightarrow> error + nat" where
  "GetEntry index =
     (let pool = index div kNumEntries;
          entry = index mod kNumEntries
      in if pool \<noteq> 0 then Inl (RuntimeError ''Out of memory'') else Inr entry)"

text \<open>
  \<open>Create(key)\<close>: \<open>next_index_++\<close> happens before \<open>GetEntry\<close> can throw.
  \<open>assign\<close> is the entry type's \<open>operator=(Key)\<close>. The result is the entry's
  number (the returned pointer) or the exception, and the list afterwards.
\<close>

definition Create :: "('k \<Rightarrow> 'a \<Rightarrow> 'a) \<Rightarrow> 'k \<Rightarrow> 'a PooledList \<Rightarrow> (error + nat) \<times> 'a PooledList" where
  "Create assign key l =
     (let index = next_index l;
          l1 = l\<lparr>next_index := index + 1\<rparr>
      in case GetEntry index of
           Inl e \<Rightarrow> (Inl e, l1)
         | Inr entry \<Rightarrow> (Inr entry, l1\<lparr>main_pool := (main_pool l1)(entry := assign key (main_pool l1 entry))\<rparr>))"

text \<open>
  \<open>Get(key)\<close>: linear search from \<open>i\<close>; \<open>None\<close> is \<open>nullptr\<close>.
  \<open>equals\<close> is the entry type's \<open>operator==(Key)\<close>.
\<close>

function Get_from :: "('a \<Rightarrow> 'k \<Rightarrow> bool) \<Rightarrow> 'k \<Rightarrow> 'a PooledList \<Rightarrow> nat \<Rightarrow> error + nat option" where
  "Get_from equals key l i =
     (if i < next_index l then
        (case GetEntry i of
           Inl e \<Rightarrow> Inl e
         | Inr entry \<Rightarrow>
             if equals (main_pool l entry) key then Inr (Some entry)
             else Get_from equals key l (i + 1))
      else Inr None)"
  by pat_completeness auto
termination
  by (relation "measure (\<lambda>(equals, key, l, i). next_index l - i)") auto

declare Get_from.simps [simp del]

definition Get :: "('a \<Rightarrow> 'k \<Rightarrow> bool) \<Rightarrow> 'k \<Rightarrow> 'a PooledList \<Rightarrow> error + nat option" where
  "Get equals key l = Get_from equals key l 0"

text \<open>\<open>GetOrCreate(key)\<close>: the same search, then the body of \<open>Create\<close>.\<close>

definition GetOrCreate ::
  "('a \<Rightarrow> 'k \<Rightarrow> bool) \<Rightarrow> ('k \<Rightarrow> 'a \<Rightarrow> 'a) \<Rightarrow> 'k \<Rightarrow> 'a PooledList \<Rightarrow> (error + nat) \<times> 'a PooledList" where
  "GetOrCreate equals assign key l =
     (case Get_from equals key l 0 of
        Inl e \<Rightarrow> (Inl e, l)
      | Inr (Some entry) \<Rightarrow> (Inr entry, l)
      | Inr None \<Rightarrow> Create assign key l)"

definition Clear :: "'a PooledList \<Rightarrow> 'a PooledList" where
  "Clear l = l\<lparr>next_index := 0\<rparr>"

definition Empty :: "'a PooledList \<Rightarrow> bool" where
  "Empty l = (next_index l = 0)"

definition GetSize :: "'a PooledList \<Rightarrow> nat" where
  "GetSize l = next_index l"

text \<open>
  A range-based \<open>for\<close> over the list: the iterator runs from \<open>begin()\<close> (index 0)
  to \<open>end()\<close> (\<open>next_index_\<close>) and \<open>operator*\<close> calls \<open>GetEntry\<close>, which can
  throw. The iterators compare with \<open>!=\<close>; counting up from 0 that is \<open>i < next_index_\<close>.
  \<open>body\<close> is the loop body acting on the state \<open>s\<close>; the result is the exception,
  if any, and the state reached. No loop body of the engine changes the list it runs
  over.
\<close>

function for_each :: "'a PooledList \<Rightarrow> ('a \<Rightarrow> 's \<Rightarrow> 's) \<Rightarrow> nat \<Rightarrow> 's \<Rightarrow> error option \<times> 's" where
  "for_each l body i s =
     (if i < next_index l then
        (case GetEntry i of
           Inl e \<Rightarrow> (Some e, s)
         | Inr entry \<Rightarrow> for_each l body (i + 1) (body (main_pool l entry) s))
      else (None, s))"
  by pat_completeness auto
termination
  by (relation "measure (\<lambda>(l, body, i, s). next_index l - i)") auto

declare for_each.simps [simp del]

section \<open>Entries of the three lists\<close>

record ReadSetEntry =
  rs_index :: LockIndex
  old_version :: Version

record WriteSetEntry =
  ws_index :: LockIndex

record WriteData =
  wd_address :: size_t
  wd_data :: Word
  wd_mask :: Word

definition ReadSetEntry_assign :: "LockIndex \<Rightarrow> ReadSetEntry \<Rightarrow> ReadSetEntry" where
  "ReadSetEntry_assign nindex e = e\<lparr>rs_index := nindex\<rparr>"

definition ReadSetEntry_equals :: "ReadSetEntry \<Rightarrow> LockIndex \<Rightarrow> bool" where
  "ReadSetEntry_equals e other = (rs_index e = other)"

definition SetVersion :: "Version \<Rightarrow> ReadSetEntry \<Rightarrow> ReadSetEntry" where
  "SetVersion new_version e = e\<lparr>old_version := new_version\<rparr>"

definition WriteSetEntry_assign :: "LockIndex \<Rightarrow> WriteSetEntry \<Rightarrow> WriteSetEntry" where
  "WriteSetEntry_assign new_index e = e\<lparr>ws_index := new_index\<rparr>"

definition WriteSetEntry_equals :: "WriteSetEntry \<Rightarrow> LockIndex \<Rightarrow> bool" where
  "WriteSetEntry_equals e other = (ws_index e = other)"

definition WriteData_assign :: "size_t \<Rightarrow> WriteData \<Rightarrow> WriteData" where
  "WriteData_assign new_addr e = e\<lparr>wd_address := new_addr\<rparr>"

definition WriteData_equals :: "WriteData \<Rightarrow> size_t \<Rightarrow> bool" where
  "WriteData_equals e other = (wd_address e = other)"

definition WriteData_Set :: "Word \<Rightarrow> Word \<Rightarrow> WriteData \<Rightarrow> WriteData" where
  "WriteData_Set new_data new_mask e = e\<lparr>wd_data := new_data, wd_mask := new_mask\<rparr>"

definition WriteData_Extend :: "Word \<Rightarrow> Word \<Rightarrow> WriteData \<Rightarrow> WriteData" where
  "WriteData_Extend new_data new_mask e =
     e\<lparr>wd_data := (wd_data e AND NOT new_mask) OR (new_data AND new_mask),
       wd_mask := wd_mask e OR new_mask\<rparr>"

section \<open>The stripe locks\<close>

text \<open>
  A \<open>ReadLock\<close> is its \<open>version_\<close> word and a \<open>WriteLock\<close> its atomic
  \<open>value_\<close> word; the functions below take and return that word.
  \<open>ReadLock::kLockMask\<close> is \<open>max ^ (max >> 1)\<close>, the top bit.
\<close>

type_synonym ReadLock = Version
type_synonym WriteLock = size_t

definition ReadLock_kLockMask :: Version where
  "ReadLock_kLockMask = Version_max XOR drop_bit 1 Version_max"

definition WriteLock_kLockMask :: size_t where
  "WriteLock_kLockMask = 1"

definition ReadLock_Lock :: "ReadLock \<Rightarrow> ReadLock" where
  "ReadLock_Lock ver = ver OR ReadLock_kLockMask"

definition ReadLock_Unlock :: "ReadLock \<Rightarrow> ReadLock" where
  "ReadLock_Unlock ver = ver AND NOT ReadLock_kLockMask"

definition ReadLock_Unlock_to :: "Version \<Rightarrow> ReadLock \<Rightarrow> ReadLock" where
  "ReadLock_Unlock_to new_version ver = new_version"

definition ReadLock_Get :: "ReadLock \<Rightarrow> Version" where
  "ReadLock_Get ver = ver"

text \<open>
  \<open>TryLock\<close> is \<open>compare_exchange_strong(0, owner | kLockMask)\<close>: it stores and
  returns true exactly when the value was 0.
\<close>

definition TryLock :: "size_t \<Rightarrow> WriteLock \<Rightarrow> bool \<times> WriteLock" where
  "TryLock owner val =
     (if val = 0 then (True, owner OR WriteLock_kLockMask) else (False, val))"

definition WriteLock_Unlock :: "WriteLock \<Rightarrow> WriteLock" where
  "WriteLock_Unlock val = 0"

definition IsLocked :: "WriteLock \<Rightarrow> bool" where
  "IsLocked val = (val AND WriteLock_kLockMask \<noteq> 0)"

definition IsLockedBy :: "WriteLock \<Rightarrow> size_t \<Rightarrow> bool" where
  "IsLockedBy val owner = (val = (owner OR WriteLock_kLockMask))"

definition GetOwner :: "WriteLock \<Rightarrow> size_t" where
  "GetOwner val = val AND NOT WriteLock_kLockMask"

record LockEntry =
  r_lock :: ReadLock
  w_lock :: WriteLock

definition kLockTableSize :: size_t where
  "kLockTableSize = 4096"

definition kLockTableMask :: size_t where
  "kLockTableMask = kLockTableSize - 1"

definition GetLockIndex :: "size_t \<Rightarrow> LockIndex" where
  "GetLockIndex addr = addr AND kLockTableMask"

section \<open>The engine and the process-wide state\<close>

text \<open>The \<open>State\<close> enumeration over \<open>uint32_t\<close>.\<close>

definition NONE_mask :: "32 word" where "NONE_mask = 0"
definition INITIALIZED_bit :: "32 word" where "INITIALIZED_bit = 1"
definition RUNNING_bit :: "32 word" where "RUNNING_bit = 2"
definition READ_ONLY_bit :: "32 word" where "READ_ONLY_bit = 4"
definition UNINITIALIZED :: "32 word" where "UNINITIALIZED = 0"
definition INITIALIZED :: "32 word" where "INITIALIZED = INITIALIZED_bit"
definition READ_WRITE_RUNNING :: "32 word" where
  "READ_WRITE_RUNNING = INITIALIZED_bit OR RUNNING_bit"
definition READ_ONLY_RUNNING :: "32 word" where
  "READ_ONLY_RUNNING = INITIALIZED_bit OR RUNNING_bit OR READ_ONLY_bit"

datatype PromotionState = NO_RUNNING | COMPATIBLE | INCOMPATIBLE

text \<open>
  One thread's view of the program: the fields of its \<open>TransactionEngine\<close>
  (\<open>this\<close> is the engine's own address), and what it shares with the other threads:
  the lock table (indexed by \<open>GetLockIndex\<close>, so below \<open>kLockTableSize\<close>), the two
  global counters, the target memory (one \<open>Word\<close> per address) and the atomic
  \<open>cm_ts_\<close> field of every engine, by the engine's address; the calling engine's
  own \<open>cm_ts_\<close> is \<open>cm_ts m (this m)\<close>. A call runs with no other thread
  interleaved: the shared part changes only by what the call itself does.
\<close>

record machine =
  this :: size_t
  state :: "32 word"
  version :: Version
  cm_backoff :: "16 word"
  read_set :: "ReadSetEntry PooledList"
  write_set :: "WriteSetEntry PooledList"
  write_data :: "WriteData PooledList"
  lock_table :: "LockIndex \<Rightarrow> LockEntry"
  global_version :: Version
  greedy_version :: Version
  memory :: "size_t \<Rightarrow> Word"
  cm_ts :: "size_t \<Rightarrow> Version"
  rng_s :: "64 word \<times> 64 word"

definition GetGlobalVersion :: "machine \<Rightarrow> Version" where
  "GetGlobalVersion m = global_version m"

text \<open>\<open>fetch_add(1) + 1\<close>: the new value.\<close>

definition GetIncGlobalVersion :: "machine \<Rightarrow> Version \<times> machine" where
  "GetIncGlobalVersion m = (global_version m + 1, m\<lparr>global_version := global_version m + 1\<rparr>)"

text \<open>\<open>fetch_add(1)\<close>: the value before the increment.\<close>

definition GetIncGreedyVersion :: "machine \<Rightarrow> Version \<times> machine" where
  "GetIncGreedyVersion m = (greedy_version m, m\<lparr>greedy_version := greedy_version m + 1\<rparr>)"

subsection \<open>Contention manager\<close>

text \<open>\<open>Xoroshiro128pp::Next\<close> on the engine's generator \<open>rng_\<close>.\<close>

definition Rotl :: "64 word \<Rightarrow> nat \<Rightarrow> 64 word" where
  "Rotl x k = push_bit k x OR drop_bit (64 - k) x"

definition Next :: "machine \<Rightarrow> 64 word \<times> machine" where
  "Next m =
     (let s0 = fst (rng_s m);
          s1 = snd (rng_s m);
          result = Rotl (s0 + s1) 17 + s0;
          s1x = s1 XOR s0
      in (result, m\<lparr>rng_s := (Rotl s0 49 XOR s1x XOR push_bit 21 s1x, Rotl s1x 28)\<rparr>))"

text \<open>
  \<open>CmOnRestart\<close>: the sleep of \<open>cm_backoff_\<close> nanoseconds between the two
  assignments has no effect on the state.
\<close>

definition CmOnRestart :: "machine \<Rightarrow> machine" where
  "CmOnRestart m =
     (case Next m of
        (r, m1) \<Rightarrow>
          (let rand = (ucast (r AND 0xF) :: 16 word);
               m2 = m1\<lparr>cm_backoff := cm_backoff m1 + rand\<rparr>
           in m2\<lparr>cm_backoff := push_bit 1 (cm_backoff m2)\<rparr>))"

text \<open>\<open>MarkAbort\<close> has an empty body.\<close>

definition MarkAbort :: "size_t \<Rightarrow> machine \<Rightarrow> machine" where
  "MarkAbort engine m = m"

definition CmShouldAbort :: "machine \<Rightarrow> WriteLock \<Rightarrow> bool \<times> machine" where
  "CmShouldAbort m lock =
     (let ts = cm_ts m (this m)
      in if ts = Version_max then (True, m)
         else let owner = GetOwner lock
              in if owner \<noteq> 0 then
                   (if cm_ts m owner < ts then (True, m)
                    else (False, MarkAbort owner m))
                 else (False, m))"

definition CmOnWrite :: "machine \<Rightarrow> machine" where
  "CmOnWrite m =
     (if cm_ts m (this m) = Version_max then
        (if GetSize (write_set m) \<ge> 10 then
           (case GetIncGreedyVersion m of
              (ts, m1) \<Rightarrow> m1\<lparr>cm_ts := (cm_ts m1)(this m1 := ts)\<rparr>)
         else m)
      else m)"

subsection \<open>Promotion queries\<close>

definition IsReadWriteCompatible :: "machine \<Rightarrow> PromotionState" where
  "IsReadWriteCompatible m =
     (if state m AND RUNNING_bit = NONE_mask then NO_RUNNING
      else if state m = READ_WRITE_RUNNING then COMPATIBLE
      else INCOMPATIBLE)"

definition IsReadOnlyCompatible :: "machine \<Rightarrow> PromotionState" where
  "IsReadOnlyCompatible m =
     (if state m AND RUNNING_bit = NONE_mask then NO_RUNNING
      else if state m = READ_WRITE_RUNNING \<or> state m = READ_ONLY_RUNNING then COMPATIBLE
      else INCOMPATIBLE)"

subsection \<open>Begin\<close>

definition BeginReadWrite :: "machine \<Rightarrow> (error + unit) \<times> machine" where
  "BeginReadWrite m =
     (if state m = READ_WRITE_RUNNING then
        (let m1 = CmOnRestart m
         in (Inr (), m1\<lparr>version := GetGlobalVersion m1, state := READ_WRITE_RUNNING\<rparr>))
      else if state m \<noteq> INITIALIZED then
        (Inl (AssertFailed ''state_ == State::INITIALIZED''), m)
      else (Inr (), m\<lparr>version := GetGlobalVersion m, state := READ_WRITE_RUNNING\<rparr>))"

definition BeginReadOnly :: "machine \<Rightarrow> (error + unit) \<times> machine" where
  "BeginReadOnly m =
     (if state m = READ_ONLY_RUNNING then
        (let m1 = CmOnRestart m
         in (Inr (), m1\<lparr>version := GetGlobalVersion m1, state := READ_ONLY_RUNNING\<rparr>))
      else if state m \<noteq> INITIALIZED then
        (Inl (AssertFailed ''state_ == State::INITIALIZED''), m)
      else (Inr (), m\<lparr>version := GetGlobalVersion m, state := READ_ONLY_RUNNING\<rparr>))"

subsection \<open>Validation, extension and rollback\<close>

text \<open>
  \<open>ValidateReadSet\<close>, from read-set entry \<open>i\<close> on. The source loads the
  read version twice (once into \<open>v\<close>, once in the comparison).
\<close>

function ValidateReadSet_from :: "machine \<Rightarrow> nat \<Rightarrow> error + bool" where
  "ValidateReadSet_from m i =
     (if i < next_index (read_set m) then
        (case GetEntry i of
           Inl e \<Rightarrow> Inl e
         | Inr n \<Rightarrow>
             (let entry = main_pool (read_set m) n;
                  lock = lock_table m (rs_index entry);
                  v = ReadLock_Get (r_lock lock)
              in if ReadLock_Get (r_lock lock) \<noteq> old_version entry then
                   (if \<not> (v AND ReadLock_kLockMask \<noteq> 0 \<and> IsLockedBy (w_lock lock) (this m))
                    then Inr False
                    else ValidateReadSet_from m (i + 1))
                 else ValidateReadSet_from m (i + 1)))
      else Inr True)"
  by pat_completeness auto
termination
  by (relation "measure (\<lambda>(m, i). next_index (read_set m) - i)") auto

declare ValidateReadSet_from.simps [simp del]

definition ValidateReadSet :: "machine \<Rightarrow> error + bool" where
  "ValidateReadSet m = ValidateReadSet_from m 0"

definition Extend :: "machine \<Rightarrow> (error + bool) \<times> machine" where
  "Extend m =
     (let new_version = GetGlobalVersion m
      in case ValidateReadSet m of
           Inl e \<Rightarrow> (Inl e, m)
         | Inr True \<Rightarrow> (Inr True, m\<lparr>version := new_version\<rparr>)
         | Inr False \<Rightarrow> (Inr False, m))"

text \<open>The body of the loops that release the write locks of the write set.\<close>

definition unlock_w_lock :: "WriteSetEntry \<Rightarrow> machine \<Rightarrow> machine" where
  "unlock_w_lock entry m =
     m\<lparr>lock_table := (lock_table m)(ws_index entry :=
          (lock_table m (ws_index entry))\<lparr>w_lock := WriteLock_Unlock (w_lock (lock_table m (ws_index entry)))\<rparr>)\<rparr>"

definition clear_buffers :: "machine \<Rightarrow> machine" where
  "clear_buffers m =
     m\<lparr>read_set := Clear (read_set m),
       write_set := Clear (write_set m),
       write_data := Clear (write_data m)\<rparr>"

definition Rollback :: "machine \<Rightarrow> error option \<times> machine" where
  "Rollback m =
     (case for_each (write_set m) unlock_w_lock 0 m of
        (Some e, m1) \<Rightarrow> (Some e, m1)
      | (None, m1) \<Rightarrow> (None, clear_buffers m1))"

subsection \<open>Commit and End\<close>

definition CommitData :: "WriteData \<Rightarrow> machine \<Rightarrow> machine" where
  "CommitData d m =
     m\<lparr>memory := (memory m)(wd_address d :=
          (memory m (wd_address d) AND NOT (wd_mask d)) OR (wd_data d AND wd_mask d))\<rparr>"

text \<open>The bodies of the three loops of \<open>Commit\<close> over the write set.\<close>

definition lock_r_lock :: "WriteSetEntry \<Rightarrow> machine \<Rightarrow> machine" where
  "lock_r_lock entry m =
     m\<lparr>lock_table := (lock_table m)(ws_index entry :=
          (lock_table m (ws_index entry))\<lparr>r_lock := ReadLock_Lock (r_lock (lock_table m (ws_index entry)))\<rparr>)\<rparr>"

definition unlock_r_lock :: "WriteSetEntry \<Rightarrow> machine \<Rightarrow> machine" where
  "unlock_r_lock entry m =
     m\<lparr>lock_table := (lock_table m)(ws_index entry :=
          (lock_table m (ws_index entry))\<lparr>r_lock := ReadLock_Unlock (r_lock (lock_table m (ws_index entry)))\<rparr>)\<rparr>"

definition release_lock :: "Version \<Rightarrow> WriteSetEntry \<Rightarrow> machine \<Rightarrow> machine" where
  "release_lock new_version entry m =
     m\<lparr>lock_table := (lock_table m)(ws_index entry :=
          (lock_table m (ws_index entry))
            \<lparr>r_lock := ReadLock_Unlock_to new_version (r_lock (lock_table m (ws_index entry))),
             w_lock := WriteLock_Unlock (w_lock (lock_table m (ws_index entry)))\<rparr>)\<rparr>"

text \<open>
  The first two steps of a writing commit: the read-version lock bit of every stripe of
  the write set is set, then the global version is incremented. The result is the
  exception of the loop, if any, \<open>new_version\<close> and the state.
\<close>

definition Commit_lock :: "machine \<Rightarrow> error option \<times> Version \<times> machine" where
  "Commit_lock m =
     (case for_each (write_set m) lock_r_lock 0 m of
        (Some e, m1) \<Rightarrow> (Some e, 0, m1)
      | (None, m1) \<Rightarrow>
          (case GetIncGlobalVersion m1 of (new_version, m2) \<Rightarrow> (None, new_version, m2)))"

text \<open>The branch \<open>if (!ValidateReadSet())\<close> of \<open>Commit\<close>, taken when validation failed.\<close>

definition Commit_abort :: "machine \<Rightarrow> error option \<times> machine" where
  "Commit_abort m =
     (case for_each (write_set m) unlock_r_lock 0 m of
        (Some e, m1) \<Rightarrow> (Some e, m1)
      | (None, m1) \<Rightarrow>
          (case Rollback m1 of
             (Some e, m2) \<Rightarrow> (Some e, m2)
           | (None, m2) \<Rightarrow> (Some (TransactionError ''Failed to validate read set'' True), m2)))"

text \<open>The extended validation: \<open>if (new_version > version_ + 1) { ... }\<close>.\<close>

definition Commit_validate :: "Version \<Rightarrow> machine \<Rightarrow> error option \<times> machine" where
  "Commit_validate new_version m =
     (if new_version > version m + 1 then
        (case ValidateReadSet m of
           Inl e \<Rightarrow> (Some e, m)
         | Inr True \<Rightarrow> (None, m)
         | Inr False \<Rightarrow> Commit_abort m)
      else (None, m))"

text \<open>The write-back and the release of the locks with the new version.\<close>

definition Commit_store :: "Version \<Rightarrow> machine \<Rightarrow> error option \<times> machine" where
  "Commit_store new_version m =
     (case for_each (write_data m) CommitData 0 m of
        (Some e, m1) \<Rightarrow> (Some e, m1)
      | (None, m1) \<Rightarrow> for_each (write_set m1) (release_lock new_version) 0 m1)"

definition Commit :: "machine \<Rightarrow> (error + unit) \<times> machine" where
  "Commit m =
     (if state m AND RUNNING_bit \<noteq> RUNNING_bit then
        (Inl (AssertFailed ''(state_ & State::RUNNING_bit) == State::RUNNING_bit''), m)
      else if state m = READ_ONLY_RUNNING then (Inr (), m\<lparr>state := INITIALIZED\<rparr>)
      else if \<not> Empty (write_set m) then
        (case Commit_lock m of
           (Some e, new_version, m1) \<Rightarrow> (Inl e, m1)
         | (None, new_version, m1) \<Rightarrow>
             (case Commit_validate new_version m1 of
                (Some e, m2) \<Rightarrow> (Inl e, m2)
              | (None, m2) \<Rightarrow>
                  (case Commit_store new_version m2 of
                     (Some e, m3) \<Rightarrow> (Inl e, m3)
                   | (None, m3) \<Rightarrow> (Inr (), (clear_buffers m3)\<lparr>state := INITIALIZED\<rparr>))))
      else (Inr (), (clear_buffers m)\<lparr>state := INITIALIZED\<rparr>))"

definition End :: "machine \<Rightarrow> (error + unit) \<times> machine" where
  "End m =
     (if state m AND RUNNING_bit \<noteq> RUNNING_bit then
        (Inl (AssertFailed ''(state_ & State::RUNNING_bit) == State::RUNNING_bit''), m)
      else
        (case for_each (write_set m) unlock_w_lock 0 m of
           (Some e, m1) \<Rightarrow> (Inl e, m1)
         | (None, m1) \<Rightarrow> (Inr (), (clear_buffers m1)\<lparr>state := INITIALIZED\<rparr>)))"

subsection \<open>ReadWord\<close>

text \<open>
  The double-sample loop of \<open>ReadWord\<close>, entered with the first sample \<open>v1\<close>. It
  yields the word read and the version it was read under. With no other thread running
  it spins for ever on a stripe whose read-version lock bit is set: then the value is
  \<open>None\<close>.
\<close>

partial_function (option) ReadWord_sample :: "machine \<Rightarrow> LockIndex \<Rightarrow> size_t \<Rightarrow> Version \<Rightarrow> (Word \<times> Version) option" where
  "ReadWord_sample m index addr v1 =
     (if v1 AND ReadLock_kLockMask \<noteq> 0 then
        ReadWord_sample m index addr (ReadLock_Get (r_lock (lock_table m index)))
      else
        (let d = memory m addr;
             v2 = ReadLock_Get (r_lock (lock_table m index))
         in if v2 = v1 then Some (d, v1) else ReadWord_sample m index addr v2))"

declare ReadWord_sample.simps [code]

text \<open>What \<open>ReadWord\<close> does after the loop, with the word \<open>d\<close> and the version \<open>v1\<close>.\<close>

definition ReadWord_validated :: "machine \<Rightarrow> LockIndex \<Rightarrow> Word \<Rightarrow> Version \<Rightarrow> (error + Word) \<times> machine" where
  "ReadWord_validated m index d v1 =
     (case GetOrCreate ReadSetEntry_equals ReadSetEntry_assign index (read_set m) of
        (Inl e, rs) \<Rightarrow> (Inl e, m\<lparr>read_set := rs\<rparr>)
      | (Inr entry, rs) \<Rightarrow>
          (let m1 = m\<lparr>read_set := rs\<rparr>
           in if v1 > version m1 then
                (case Extend m1 of
                   (Inl e, m2) \<Rightarrow> (Inl e, m2)
                 | (Inr True, m2) \<Rightarrow> (Inr d, m2)
                 | (Inr False, m2) \<Rightarrow>
                     (case Rollback m2 of
                        (Some e, m3) \<Rightarrow> (Inl e, m3)
                      | (None, m3) \<Rightarrow> (Inl (TransactionError ''Read inconsistent state'' True), m3)))
              else (Inr d, m1)))"

definition ReadWord :: "machine \<Rightarrow> size_t \<Rightarrow> ((error + Word) \<times> machine) option" where
  "ReadWord m addr =
     (let index = GetLockIndex addr;
          lock = lock_table m index
      in if IsLockedBy (w_lock lock) (this m) then
           Some (case Get WriteData_equals addr (write_data m) of
                   Inl e \<Rightarrow> (Inl e, m)
                 | Inr None \<Rightarrow> (Inl (AssertFailed ''entry != nullptr''), m)
                 | Inr (Some entry) \<Rightarrow> (Inr (wd_data (main_pool (write_data m) entry)), m))
         else
           (case ReadWord_sample m index addr (ReadLock_Get (r_lock lock)) of
              None \<Rightarrow> None
            | Some (d, v1) \<Rightarrow> Some (ReadWord_validated m index d v1)))"

subsection \<open>WriteWord\<close>

text \<open>\<open>entry->Set(data, mask)\<close> and \<open>entry->Extend(data, mask)\<close> on entry \<open>entry\<close>.\<close>

definition update_write_data :: "nat \<Rightarrow> (WriteData \<Rightarrow> WriteData) \<Rightarrow> machine \<Rightarrow> machine" where
  "update_write_data entry f m =
     m\<lparr>write_data := (write_data m)\<lparr>main_pool :=
          (main_pool (write_data m))(entry := f (main_pool (write_data m) entry))\<rparr>\<rparr>"

text \<open>The branch of \<open>WriteWord\<close> for a stripe whose write lock the engine holds.\<close>

definition WriteWord_owned :: "machine \<Rightarrow> size_t \<Rightarrow> Word \<Rightarrow> Word \<Rightarrow> (error + unit) \<times> machine" where
  "WriteWord_owned m addr new_data new_mask =
     (case Get WriteData_equals addr (write_data m) of
        Inl e \<Rightarrow> (Inl e, m)
      | Inr None \<Rightarrow>
          (case Create WriteData_assign addr (write_data m) of
             (Inl e, wd) \<Rightarrow> (Inl e, m\<lparr>write_data := wd\<rparr>)
           | (Inr entry, wd) \<Rightarrow>
               (Inr (), update_write_data entry (WriteData_Set new_data new_mask) (m\<lparr>write_data := wd\<rparr>)))
      | Inr (Some entry) \<Rightarrow>
          (Inr (), update_write_data entry (WriteData_Extend new_data new_mask) m))"

text \<open>After a successful \<open>TryLock\<close>: the two \<open>Create\<close> calls; the result is \<open>entry\<close>.\<close>

definition WriteWord_create :: "machine \<Rightarrow> LockIndex \<Rightarrow> size_t \<Rightarrow> (error + nat) \<times> machine" where
  "WriteWord_create m index addr =
     (case Create WriteSetEntry_assign index (write_set m) of
        (Inl e, ws) \<Rightarrow> (Inl e, m\<lparr>write_set := ws\<rparr>)
      | (Inr ws_entry, ws) \<Rightarrow>
          (let m1 = m\<lparr>write_set := ws\<rparr>
           in case Create WriteData_assign addr (write_data m1) of
                (Inl e, wd) \<Rightarrow> (Inl e, m1\<lparr>write_data := wd\<rparr>)
              | (Inr entry, wd) \<Rightarrow> (Inr entry, m1\<lparr>write_data := wd\<rparr>)))"

text \<open>
  The loop of \<open>WriteWord\<close> that contends for the write lock. With no other thread
  running, a lock held by another engine stays held: the loop then either aborts (the
  contention manager says so) or spins for ever, and the value is \<open>None\<close>.
\<close>

partial_function (option) WriteWord_acquire :: "machine \<Rightarrow> LockIndex \<Rightarrow> size_t \<Rightarrow> ((error + nat) \<times> machine) option" where
  "WriteWord_acquire m index addr =
     (if IsLocked (w_lock (lock_table m index)) then
        (case CmShouldAbort m (w_lock (lock_table m index)) of
           (abort, m1) \<Rightarrow>
             if abort then
               Some (case Rollback m1 of
                       (Some e, m2) \<Rightarrow> (Inl e, m2)
                     | (None, m2) \<Rightarrow> (Inl (TransactionError ''Stuff'' True), m2))
             else WriteWord_acquire m1 index addr)
      else
        (case TryLock (this m) (w_lock (lock_table m index)) of
           (locked, val) \<Rightarrow>
             if locked then
               Some (WriteWord_create
                       (m\<lparr>lock_table := (lock_table m)(index := (lock_table m index)\<lparr>w_lock := val\<rparr>)\<rparr>)
                       index addr)
             else WriteWord_acquire
                    (m\<lparr>lock_table := (lock_table m)(index := (lock_table m index)\<lparr>w_lock := val\<rparr>)\<rparr>)
                    index addr))"

declare WriteWord_acquire.simps [code]

text \<open>What \<open>WriteWord\<close> does after the loop, holding the new lock and \<open>entry\<close>.\<close>

definition WriteWord_store :: "machine \<Rightarrow> LockIndex \<Rightarrow> size_t \<Rightarrow> nat \<Rightarrow> Word \<Rightarrow> Word \<Rightarrow> (error + unit) \<times> machine" where
  "WriteWord_store m index addr entry new_data new_mask =
     (case (if ReadLock_Get (r_lock (lock_table m index)) > version m then
              (case Extend m of
                 (Inl e, m1) \<Rightarrow> (Some e, m1)
               | (Inr True, m1) \<Rightarrow> (None, m1)
               | (Inr False, m1) \<Rightarrow>
                   (case Rollback m1 of
                      (Some e, m2) \<Rightarrow> (Some e, m2)
                    | (None, m2) \<Rightarrow> (Some (TransactionError ''Inconsistent state after write'' True), m2)))
            else (None, m)) of
        (Some e, m1) \<Rightarrow> (Inl e, m1)
      | (None, m1) \<Rightarrow>
          (let d = (if new_mask \<noteq> NOT 0 then (new_data AND new_mask) OR (memory m1 addr AND NOT new_mask)
                    else new_data)
           in (Inr (), CmOnWrite (update_write_data entry (WriteData_Set d new_mask) m1))))"

definition WriteWord :: "machine \<Rightarrow> size_t \<Rightarrow> Word \<Rightarrow> Word \<Rightarrow> ((error + unit) \<times> machine) option" where
  "WriteWord m addr new_data new_mask =
     (let index = GetLockIndex addr
      in if IsLockedBy (w_lock (lock_table m index)) (this m) then
           Some (WriteWord_owned m addr new_data new_mask)
         else
           (case WriteWord_acquire m index addr of
              None \<Rightarrow> None
            | Some (Inl e, m1) \<Rightarrow> Some (Inl e, m1)
            | Some (Inr entry, m1) \<Rightarrow> Some (WriteWord_store m1 index addr entry new_data new_mask)))"

section \<open>Example states\<close>

text \<open>
  The engine of a thread right after \<open>Init\<close>, in a process where nothing has been
  committed yet: the three pages hold value-initialised entries, every lock of the table
  is free with version 0, both counters are 0 and \<open>cm_ts_\<close> is the sentinel. The engine
  lives at address \<open>0x40\<close>.
\<close>

definition zero_read_set :: "ReadSetEntry PooledList" where
  "zero_read_set = \<lparr>main_pool = (\<lambda>n. \<lparr>rs_index = 0, old_version = 0\<rparr>), next_index = 0\<rparr>"

definition zero_write_set :: "WriteSetEntry PooledList" where
  "zero_write_set = \<lparr>main_pool = (\<lambda>n. \<lparr>ws_index = 0\<rparr>), next_index = 0\<rparr>"

definition zero_write_data :: "WriteData PooledList" where
  "zero_write_data =
     \<lparr>main_pool = (\<lambda>n. \<lparr>wd_address = 0, wd_data = 0, wd_mask = 0\<rparr>), next_index = 0\<rparr>"

definition engine0 :: machine where
  "engine0 =
     \<lparr>this = 0x40, state = INITIALIZED, version = 0, cm_backoff = 0,
      read_set = zero_read_set, write_set = zero_write_set, write_data = zero_write_data,
      lock_table = (\<lambda>k. \<lparr>r_lock = 0, w_lock = 0\<rparr>), global_version = 0, greedy_version = 0,
      memory = (\<lambda>a. 0), cm_ts = (\<lambda>p. Version_max),
      rng_s = (0xdad6490a0e036cbf, 0x282ef0c42968addc)\<rparr>"

text \<open>\<open>engine0\<close> after \<open>BeginReadWrite\<close>, and after \<open>BeginReadOnly\<close>.\<close>

definition rw0 :: machine where
  "rw0 = engine0\<lparr>state := READ_WRITE_RUNNING\<rparr>"

definition ro0 :: machine where
  "ro0 = engine0\<lparr>state := READ_ONLY_RUNNING\<rparr>"

text \<open>
  A first transaction: \<open>rw1\<close> is \<open>rw0\<close> after \<open>WriteWord(0x1000, 7, ~0)\<close>
  (stripe 0 is now owned by the engine), \<open>committed1\<close> is \<open>rw1\<close> after \<open>Commit\<close>
  (global version 1, stripe 0 at version 1, the word stored), and \<open>rw2\<close> is
  \<open>committed1\<close> after the next \<open>BeginReadWrite\<close>.
\<close>

definition rw1 :: machine where
  "rw1 = rw0
     \<lparr>write_set := \<lparr>main_pool = (main_pool zero_write_set)(0 := \<lparr>ws_index = 0\<rparr>), next_index = 1\<rparr>,
      write_data := \<lparr>main_pool = (main_pool zero_write_data)
                        (0 := \<lparr>wd_address = 0x1000, wd_data = 7, wd_mask = - 1\<rparr>), next_index = 1\<rparr>,
      lock_table := (lock_table rw0)(0 := \<lparr>r_lock = 0, w_lock = 0x41\<rparr>)\<rparr>"

definition committed1 :: machine where
  "committed1 = rw1
     \<lparr>state := INITIALIZED,
      write_set := Clear (write_set rw1),
      write_data := Clear (write_data rw1),
      lock_table := (lock_table rw0)(0 := \<lparr>r_lock = 1, w_lock = 0\<rparr>),
      global_version := 1,
      memory := (memory rw0)(0x1000 := 7)\<rparr>"

definition rw2 :: machine where
  "rw2 = committed1\<lparr>version := 1, state := READ_WRITE_RUNNING\<rparr>"

text \<open>\<open>ro0\<close> after \<open>ReadWord(0x1000)\<close>: the read set holds one entry, for stripe 0.\<close>

definition ro1 :: machine where
  "ro1 = ro0
     \<lparr>read_set := \<lparr>main_pool = (main_pool zero_read_set)(0 := \<lparr>rs_index = 0, old_version = 0\<rparr>),
                   next_index = 1\<rparr>\<rparr>"

text \<open>\<open>rw0\<close> with the word \<open>0x1234\<close> at address \<open>0x1000\<close>.\<close>

definition rw_mem :: machine where
  "rw_mem = rw0\<lparr>memory := (memory rw0)(0x1000 := 0x1234)\<rparr>"

text \<open>
  A transaction that loses at commit: \<open>rw_read\<close> is \<open>rw0\<close> after
  \<open>ReadWord(0x1000)\<close>, \<open>rw_read_write\<close> is \<open>rw_read\<close> after
  \<open>WriteWord(0x1008, 9, ~0)\<close> (stripe 8), and \<open>c2_state\<close> is \<open>rw_read_write\<close>
  after another engine has committed the word 7 to address \<open>0x1000\<close>: the global
  version is 1, stripe 0 is at version 1 and free, the word is stored.
\<close>

definition rw_read :: machine where
  "rw_read = rw0
     \<lparr>read_set := \<lparr>main_pool = (main_pool zero_read_set)(0 := \<lparr>rs_index = 0, old_version = 0\<rparr>),
                   next_index = 1\<rparr>\<rparr>"

definition rw_read_write :: machine where
  "rw_read_write = rw_read
     \<lparr>write_set := \<lparr>main_pool = (main_pool zero_write_set)(0 := \<lparr>ws_index = 8\<rparr>), next_index = 1\<rparr>,
      write_data := \<lparr>main_pool = (main_pool zero_write_data)
                        (0 := \<lparr>wd_address = 0x1008, wd_data = 9, wd_mask = - 1\<rparr>), next_index = 1\<rparr>,
      lock_table := (lock_table rw_read)(8 := \<lparr>r_lock = 0, w_lock = 0x41\<rparr>)\<rparr>"

definition c2_state :: machine where
  "c2_state = rw_read_write
     \<lparr>lock_table := (lock_table rw_read_write)(0 := \<lparr>r_lock = 1, w_lock = 0\<rparr>),
      global_version := 1,
      memory := (memory rw_read_write)(0x1000 := 7)\<rparr>"

text \<open>
  A greedy engine among others: \<open>greedy5\<close> is \<open>rw0\<close> after the engine (at address
  \<open>0x40\<close>) has taken the greedy timestamp 5, while the engine at address \<open>0x100\<close>
  holds timestamp 3 and the engine at address \<open>0x200\<close> timestamp 7. A write lock
  held by the engine at \<open>0x100\<close> has the value \<open>0x101\<close>, one held by the engine at
  \<open>0x200\<close> the value \<open>0x201\<close>.
\<close>

definition greedy5 :: machine where
  "greedy5 = rw0\<lparr>cm_ts := (cm_ts rw0)(0x40 := 5, 0x100 := 3, 0x200 := 7)\<rparr>"

section \<open>Basic facts\<close>

lemmas state_defs = NONE_mask_def INITIALIZED_bit_def RUNNING_bit_def READ_ONLY_bit_def
  UNINITIALIZED_def INITIALIZED_def READ_WRITE_RUNNING_def READ_ONLY_RUNNING_def

lemmas lock_defs = GetLockIndex_def kLockTableMask_def kLockTableSize_def IsLockedBy_def
  IsLocked_def WriteLock_kLockMask_def ReadLock_Get_def TryLock_def GetOwner_def
  WriteLock_Unlock_def ReadLock_Lock_def ReadLock_Unlock_def ReadLock_Unlock_to_def

lemmas entry_defs = ReadSetEntry_assign_def ReadSetEntry_equals_def WriteSetEntry_assign_def
  WriteSetEntry_equals_def WriteData_assign_def WriteData_equals_def WriteData_Set_def
  WriteData_Extend_def

lemmas zero_defs = zero_read_set_def zero_write_set_def zero_write_data_def

lemma ReadLock_kLockMask_value: "ReadLock_kLockMask = 0x8000000000000000"
  by (simp add: ReadLock_kLockMask_def Version_max_def mask_eq_exp_minus_1)

lemma begin_engine0: "BeginReadWrite engine0 = (Inr (), rw0)"
  by (simp add: rw0_def BeginReadWrite_def engine0_def state_defs GetGlobalVersion_def)

lemma begin_read_only_engine0: "BeginReadOnly engine0 = (Inr (), ro0)"
  by (simp add: ro0_def BeginReadOnly_def engine0_def state_defs GetGlobalVersion_def)

subsection \<open>PooledList\<close>

lemma GetEntry_ok: "i < 255 \<Longrightarrow> GetEntry i = Inr i"
  by (simp add: GetEntry_def kNumEntries_def)

lemma GetEntry_full: "255 \<le> i \<Longrightarrow> GetEntry i = Inl (RuntimeError ''Out of memory'')"
  by (simp add: GetEntry_def kNumEntries_def div_eq_0_iff)

lemma Create_Inr:
  "Create assign key l = (Inr entry, l') \<Longrightarrow>
     next_index l < 255 \<and> entry = next_index l \<and>
     l' = \<lparr>main_pool = (main_pool l)(next_index l := assign key (main_pool l (next_index l))),
           next_index = next_index l + 1\<rparr>"
  by (cases "next_index l < 255") (auto simp: Create_def GetEntry_ok GetEntry_full Let_def)

lemma Create_ok:
  "next_index l < 255 \<Longrightarrow>
   Create assign key l =
     (Inr (next_index l),
      \<lparr>main_pool = (main_pool l)(next_index l := assign key (main_pool l (next_index l))),
        next_index = next_index l + 1\<rparr>)"
  by (simp add: Create_def GetEntry_ok Let_def)

lemma Get_from_Some:
  "Get_from equals key l i = Inr (Some e) \<Longrightarrow>
     i \<le> e \<and> e < next_index l \<and> e < 255 \<and> equals (main_pool l e) key"
proof (induction equals key l i rule: Get_from.induct)
  case (1 equals key l i)
  show ?case
  proof (cases "i < next_index l \<and> i < 255")
    case True
    show ?thesis
    proof (cases "equals (main_pool l i) key")
      case True
      with \<open>i < next_index l \<and> i < 255\<close> "1.prems" show ?thesis
        by (simp add: Get_from.simps [of equals key l i] GetEntry_ok)
    next
      case False
      with \<open>i < next_index l \<and> i < 255\<close> "1.prems"
      have "Get_from equals key l (i + 1) = Inr (Some e)"
        by (simp add: Get_from.simps [of equals key l i] GetEntry_ok)
      with "1.IH" [of i] False \<open>i < next_index l \<and> i < 255\<close> show ?thesis
        by (simp add: GetEntry_ok)
    qed
  next
    case False
    with "1.prems" show ?thesis
      by (auto simp: Get_from.simps [of equals key l i] GetEntry_full not_less split: if_splits)
  qed
qed

lemma Get_from_cong:
  "next_index l' = next_index l \<Longrightarrow>
   (\<And>j. j < 255 \<Longrightarrow> equals (main_pool l' j) key = equals (main_pool l j) key) \<Longrightarrow>
   Get_from equals key l' i = Get_from equals key l i"
proof (induction equals key l i rule: Get_from.induct)
  case (1 equals key l i)
  show ?case
  proof (cases "i < next_index l \<and> i < 255")
    case True
    with "1.prems" "1.IH" [of i] show ?thesis
      by (simp add: Get_from.simps [of equals key l i] Get_from.simps [of equals key l' i] GetEntry_ok)
  next
    case False
    with "1.prems" show ?thesis
      by (auto simp: Get_from.simps [of equals key l i] Get_from.simps [of equals key l' i]
          GetEntry_full not_less)
  qed
qed

lemma Get_from_exists:
  "i \<le> j \<Longrightarrow> j < next_index l \<Longrightarrow> j < 255 \<Longrightarrow> equals (main_pool l j) key \<Longrightarrow>
   \<exists>e. Get_from equals key l i = Inr (Some e) \<and> e \<le> j"
proof (induction equals key l i rule: Get_from.induct)
  case (1 equals key l i)
  from "1.prems" have il: "i < next_index l" "i < 255" by simp_all
  show ?case
  proof (cases "equals (main_pool l i) key")
    case True
    with il "1.prems" show ?thesis
      by (simp add: Get_from.simps [of equals key l i] GetEntry_ok)
  next
    case False
    with "1.prems" have "i \<noteq> j" by auto
    with "1.prems" have "i + 1 \<le> j" by simp
    with "1.IH" [of i] il False "1.prems"
    have "\<exists>e. Get_from equals key l (i + 1) = Inr (Some e) \<and> e \<le> j"
      by (simp add: GetEntry_ok)
    with il False show ?thesis
      by (simp add: Get_from.simps [of equals key l i] GetEntry_ok)
  qed
qed

lemma Get_from_absent:
  "(\<And>j. i \<le> j \<Longrightarrow> j < next_index l \<Longrightarrow> j < 255 \<Longrightarrow> \<not> equals (main_pool l j) key) \<Longrightarrow>
   Get_from equals key l i =
     (if i < next_index l \<and> 255 < next_index l then Inl (RuntimeError ''Out of memory'')
      else Inr None)"
proof (induction equals key l i rule: Get_from.induct)
  case (1 equals key l i)
  show ?case
  proof (cases "i < next_index l")
    case False
    then show ?thesis by (simp add: Get_from.simps [of equals key l i])
  next
    case il: True
    show ?thesis
    proof (cases "i < 255")
      case False
      with il show ?thesis
        by (simp add: Get_from.simps [of equals key l i] GetEntry_full not_less)
    next
      case True
      with il "1.prems" [of i] have ne: "\<not> equals (main_pool l i) key" by simp
      from "1.IH" [of i] il True ne "1.prems"
      have "Get_from equals key l (i + 1) =
          (if i + 1 < next_index l \<and> 255 < next_index l then Inl (RuntimeError ''Out of memory'')
           else Inr None)"
        by (simp add: GetEntry_ok)
      with il True ne show ?thesis
        by (auto simp: Get_from.simps [of equals key l i] GetEntry_ok)
    qed
  qed
qed

section \<open>Loops over the write set\<close>

lemma for_each_done: "next_index l \<le> i \<Longrightarrow> for_each l body i s = (None, s)"
  by (simp add: for_each.simps [of l body i])

lemma for_each_step:
  "i < next_index l \<Longrightarrow> i < 255 \<Longrightarrow>
   for_each l body i s = for_each l body (Suc i) (body (main_pool l i) s)"
  by (simp add: for_each.simps [of l body i] GetEntry_ok)

lemma for_each_1: "next_index l = 1 \<Longrightarrow> for_each l body 0 s = (None, body (main_pool l 0) s)"
  by (simp add: for_each_step for_each_done)

text \<open>A loop whose body leaves a field of the state alone leaves it alone.\<close>

lemma for_each_preserves:
  "(\<And>e s. f (body e s) = f s) \<Longrightarrow> f (snd (for_each l body i s)) = f s"
proof (induction l body i s rule: for_each.induct)
  case (1 l body i s)
  show ?case
  proof (cases "i < next_index l \<and> i < 255")
    case True
    with "1.IH" [of i] "1.prems" show ?thesis
      by (simp add: for_each.simps [of l body i] GetEntry_ok)
  next
    case False
    then show ?thesis
      by (auto simp: for_each.simps [of l body i] GetEntry_full not_less)
  qed
qed

text \<open>
  A loop whose body applies an idempotent \<open>g\<close> to the lock of the entry's stripe applies
  \<open>g\<close> to the locks of the stripes of the entries from \<open>i\<close> on, once each.
\<close>

lemma for_each_lock_table:
  assumes cap: "next_index l \<le> 255"
    and body: "\<And>e s. body e s =
        s\<lparr>lock_table := (lock_table s)(ws_index e := g (lock_table s (ws_index e)))\<rparr>"
    and idem: "\<And>x. g (g x) = g x"
  shows "for_each l body i s =
     (None, s\<lparr>lock_table := (\<lambda>k. if (\<exists>j. i \<le> j \<and> j < next_index l \<and> ws_index (main_pool l j) = k)
                                 then g (lock_table s k) else lock_table s k)\<rparr>)"
proof (induction "next_index l - i" arbitrary: i s)
  case 0
  then have fin: "next_index l \<le> i" by simp
  then have "(\<lambda>k. if (\<exists>j. i \<le> j \<and> j < next_index l \<and> ws_index (main_pool l j) = k)
                 then g (lock_table s k) else lock_table s k) = lock_table s"
    by (intro ext) auto
  with fin show ?case
    by (simp add: for_each_done)
next
  case (Suc n)
  then have il: "i < next_index l" and n: "n = next_index l - Suc i" by simp_all
  with cap have i255: "i < 255" by simp
  let ?k0 = "ws_index (main_pool l i)"
  let ?s1 = "body (main_pool l i) s"
  have lt1: "lock_table ?s1 = (lock_table s)(?k0 := g (lock_table s ?k0))"
    by (simp add: body)
  have s1: "?s1 = s\<lparr>lock_table := lock_table ?s1\<rparr>"
    by (simp add: body)
  have "for_each l body i s = for_each l body (Suc i) ?s1"
    by (rule for_each_step [OF il i255])
  also have "\<dots> = (None, ?s1\<lparr>lock_table :=
      (\<lambda>k. if (\<exists>j. Suc i \<le> j \<and> j < next_index l \<and> ws_index (main_pool l j) = k)
           then g (lock_table ?s1 k) else lock_table ?s1 k)\<rparr>)"
    by (rule Suc.hyps(1) [OF n])
  also have "?s1\<lparr>lock_table :=
      (\<lambda>k. if (\<exists>j. Suc i \<le> j \<and> j < next_index l \<and> ws_index (main_pool l j) = k)
           then g (lock_table ?s1 k) else lock_table ?s1 k)\<rparr> =
     s\<lparr>lock_table := (\<lambda>k. if (\<exists>j. i \<le> j \<and> j < next_index l \<and> ws_index (main_pool l j) = k)
                                 then g (lock_table s k) else lock_table s k)\<rparr>"
  proof -
    have "(\<lambda>k. if (\<exists>j. Suc i \<le> j \<and> j < next_index l \<and> ws_index (main_pool l j) = k)
           then g (lock_table ?s1 k) else lock_table ?s1 k) =
          (\<lambda>k. if (\<exists>j. i \<le> j \<and> j < next_index l \<and> ws_index (main_pool l j) = k)
                                 then g (lock_table s k) else lock_table s k)"
    proof (rule ext)
      fix k
      show "(if (\<exists>j. Suc i \<le> j \<and> j < next_index l \<and> ws_index (main_pool l j) = k)
           then g (lock_table ?s1 k) else lock_table ?s1 k) =
          (if (\<exists>j. i \<le> j \<and> j < next_index l \<and> ws_index (main_pool l j) = k)
                                 then g (lock_table s k) else lock_table s k)"
      proof (cases "k = ?k0")
        case True
        with il have ex: "\<exists>j. i \<le> j \<and> j < next_index l \<and> ws_index (main_pool l j) = k"
          by auto
        from True have "lock_table ?s1 k = g (lock_table s k)"
          by (simp add: lt1)
        with ex show ?thesis by (simp add: idem)
      next
        case False
        have "(\<exists>j. Suc i \<le> j \<and> j < next_index l \<and> ws_index (main_pool l j) = k) =
              (\<exists>j. i \<le> j \<and> j < next_index l \<and> ws_index (main_pool l j) = k)"
        proof
          assume "\<exists>j. Suc i \<le> j \<and> j < next_index l \<and> ws_index (main_pool l j) = k"
          then obtain j where "Suc i \<le> j" "j < next_index l" "ws_index (main_pool l j) = k" by blast
          then have "i \<le> j \<and> j < next_index l \<and> ws_index (main_pool l j) = k" by simp
          then show "\<exists>j. i \<le> j \<and> j < next_index l \<and> ws_index (main_pool l j) = k" ..
        next
          assume "\<exists>j. i \<le> j \<and> j < next_index l \<and> ws_index (main_pool l j) = k"
          then obtain j where j: "i \<le> j" "j < next_index l" "ws_index (main_pool l j) = k" by blast
          with False have "j \<noteq> i" by auto
          with j have "Suc i \<le> j \<and> j < next_index l \<and> ws_index (main_pool l j) = k" by simp
          then show "\<exists>j. Suc i \<le> j \<and> j < next_index l \<and> ws_index (main_pool l j) = k" ..
        qed
        moreover from False have "lock_table ?s1 k = lock_table s k"
          by (simp add: lt1)
        ultimately show ?thesis by (simp only:)
      qed
    qed
    then show ?thesis
      by (subst s1) simp
  qed
  finally show ?case .
qed

lemma lock_loop:
  assumes "next_index (write_set m) \<le> 255"
  shows "for_each (write_set m) lock_r_lock 0 m =
     (None, m\<lparr>lock_table := (\<lambda>k. if (\<exists>j. 0 \<le> j \<and> j < next_index (write_set m) \<and>
                                        ws_index (main_pool (write_set m) j) = k)
                                 then (lock_table m k)\<lparr>r_lock := ReadLock_Lock (r_lock (lock_table m k))\<rparr>
                                 else lock_table m k)\<rparr>)"
  by (rule for_each_lock_table [OF assms, where g = "\<lambda>x. x\<lparr>r_lock := ReadLock_Lock (r_lock x)\<rparr>"])
    (simp_all add: lock_r_lock_def ReadLock_Lock_def)

lemma unlock_r_loop:
  assumes "next_index l \<le> 255"
  shows "for_each l unlock_r_lock 0 m =
     (None, m\<lparr>lock_table := (\<lambda>k. if (\<exists>j. 0 \<le> j \<and> j < next_index l \<and> ws_index (main_pool l j) = k)
                                 then (lock_table m k)\<lparr>r_lock := ReadLock_Unlock (r_lock (lock_table m k))\<rparr>
                                 else lock_table m k)\<rparr>)"
  by (rule for_each_lock_table [OF assms, where g = "\<lambda>x. x\<lparr>r_lock := ReadLock_Unlock (r_lock x)\<rparr>"])
    (simp_all add: unlock_r_lock_def ReadLock_Unlock_def)

lemma unlock_w_loop:
  assumes "next_index l \<le> 255"
  shows "for_each l unlock_w_lock 0 m =
     (None, m\<lparr>lock_table := (\<lambda>k. if (\<exists>j. 0 \<le> j \<and> j < next_index l \<and> ws_index (main_pool l j) = k)
                                 then (lock_table m k)\<lparr>w_lock := WriteLock_Unlock (w_lock (lock_table m k))\<rparr>
                                 else lock_table m k)\<rparr>)"
  by (rule for_each_lock_table [OF assms, where g = "\<lambda>x. x\<lparr>w_lock := WriteLock_Unlock (w_lock x)\<rparr>"])
    (simp_all add: unlock_w_lock_def WriteLock_Unlock_def)

lemma lock_bit_cleared: "ReadLock_Unlock v AND ReadLock_kLockMask = 0"
  by (simp add: ReadLock_Unlock_def and.assoc)

section \<open>The steps of WriteWord\<close>

lemma acquire_free:
  "w_lock (lock_table m index) = 0 \<Longrightarrow>
   WriteWord_acquire m index addr =
     Some (WriteWord_create
             (m\<lparr>lock_table := (lock_table m)(index := (lock_table m index)
                  \<lparr>w_lock := this m OR WriteLock_kLockMask\<rparr>)\<rparr>) index addr)"
  by (subst WriteWord_acquire.simps) (simp add: IsLocked_def TryLock_def)

lemma acquire_Inr:
  assumes "WriteWord_acquire m index addr = Some r" and "fst r = Inr entry"
  shows "w_lock (lock_table m index) = 0"
proof -
  have "\<forall>entry. fst r = Inr entry \<longrightarrow> w_lock (lock_table m index) = 0"
  proof (rule WriteWord_acquire.raw_induct
      [where P = "\<lambda>m index addr r. \<forall>entry. fst r = Inr entry \<longrightarrow> w_lock (lock_table m index) = 0"])
    show "WriteWord_acquire m index addr = Some r" by (rule assms(1))
  next
    fix acquire :: "machine \<Rightarrow> LockIndex \<Rightarrow> size_t \<Rightarrow> ((error + nat) \<times> machine) option"
    fix m index addr r
    assume IH: "\<And>m index addr r. acquire m index addr = Some r \<Longrightarrow>
        \<forall>entry. fst r = Inr entry \<longrightarrow> w_lock (lock_table m index) = 0"
    assume step: "(if IsLocked (w_lock (lock_table m index)) then
        (case CmShouldAbort m (w_lock (lock_table m index)) of
           (abort, m1) \<Rightarrow>
             if abort then
               Some (case Rollback m1 of
                       (Some e, m2) \<Rightarrow> (Inl e, m2)
                     | (None, m2) \<Rightarrow> (Inl (TransactionError ''Stuff'' True), m2))
             else acquire m1 index addr)
      else
        (case TryLock (this m) (w_lock (lock_table m index)) of
           (locked, val) \<Rightarrow>
             if locked then
               Some (WriteWord_create
                       (m\<lparr>lock_table := (lock_table m)(index := (lock_table m index)\<lparr>w_lock := val\<rparr>)\<rparr>)
                       index addr)
             else acquire
                    (m\<lparr>lock_table := (lock_table m)(index := (lock_table m index)\<lparr>w_lock := val\<rparr>)\<rparr>)
                    index addr)) = Some r"
    show "\<forall>entry. fst r = Inr entry \<longrightarrow> w_lock (lock_table m index) = 0"
    proof (cases "IsLocked (w_lock (lock_table m index))")
      case True
      obtain abort m1 where cm: "CmShouldAbort m (w_lock (lock_table m index)) = (abort, m1)"
        by (cases "CmShouldAbort m (w_lock (lock_table m index))")
      have m1: "m1 = m"
        using cm by (auto simp: CmShouldAbort_def MarkAbort_def Let_def split: if_splits)
      show ?thesis
      proof (cases abort)
        case True
        with step \<open>IsLocked (w_lock (lock_table m index))\<close> cm show ?thesis
          by (auto split: prod.splits option.splits)
      next
        case False
        with step \<open>IsLocked (w_lock (lock_table m index))\<close> cm m1
        have "acquire m index addr = Some r" by simp
        from IH [OF this] show ?thesis .
      qed
    next
      case False
      show ?thesis
      proof (cases "w_lock (lock_table m index) = 0")
        case True
        then show ?thesis by simp
      next
        case nz: False
        with step False
        have "acquire (m\<lparr>lock_table := (lock_table m)(index := (lock_table m index)
            \<lparr>w_lock := w_lock (lock_table m index)\<rparr>)\<rparr>) index addr = Some r"
          by (simp add: TryLock_def)
        from IH [OF this] show ?thesis by simp
      qed
    qed
  qed
  with assms(2) show ?thesis by blast
qed

lemma WriteWord_create_Inr:
  assumes "WriteWord_create m index addr = (Inr entry, m')"
  shows "next_index (write_set m) < 255 \<and> next_index (write_data m) < 255 \<and>
         entry = next_index (write_data m) \<and>
         m' = m\<lparr>write_set := \<lparr>main_pool = (main_pool (write_set m))
                    (next_index (write_set m) :=
                       WriteSetEntry_assign index (main_pool (write_set m) (next_index (write_set m)))),
                  next_index = next_index (write_set m) + 1\<rparr>,
                write_data := \<lparr>main_pool = (main_pool (write_data m))
                    (next_index (write_data m) :=
                       WriteData_assign addr (main_pool (write_data m) (next_index (write_data m)))),
                  next_index = next_index (write_data m) + 1\<rparr>\<rparr>"
proof -
  obtain r1 ws where c1: "Create WriteSetEntry_assign index (write_set m) = (r1, ws)"
    by (cases "Create WriteSetEntry_assign index (write_set m)")
  with assms obtain e1 where r1: "r1 = Inr e1"
    by (cases r1) (auto simp: WriteWord_create_def)
  obtain r2 wd where c2: "Create WriteData_assign addr (write_data m) = (r2, wd)"
    by (cases "Create WriteData_assign addr (write_data m)")
  with assms c1 r1 have r2: "r2 = Inr entry" and m': "m' = m\<lparr>write_set := ws, write_data := wd\<rparr>"
    by (cases r2; auto simp: WriteWord_create_def Let_def)+
  from Create_Inr [OF c1 [unfolded r1]] Create_Inr [OF c2 [unfolded r2]] m'
  show ?thesis by simp
qed

lemma WriteWord_create_ok:
  assumes "next_index (write_set m) < 255" and "next_index (write_data m) < 255"
  shows "WriteWord_create m index addr =
     (Inr (next_index (write_data m)),
      m\<lparr>write_set := \<lparr>main_pool = (main_pool (write_set m))
                    (next_index (write_set m) :=
                       WriteSetEntry_assign index (main_pool (write_set m) (next_index (write_set m)))),
                  next_index = next_index (write_set m) + 1\<rparr>,
                write_data := \<lparr>main_pool = (main_pool (write_data m))
                    (next_index (write_data m) :=
                       WriteData_assign addr (main_pool (write_data m) (next_index (write_data m)))),
                  next_index = next_index (write_data m) + 1\<rparr>\<rparr>)"
  using assms by (simp add: WriteWord_create_def Create_ok Let_def)

lemma WriteWord_store_Inr:
  assumes "WriteWord_store m index addr entry new_data new_mask = (Inr (), m1)"
  shows "write_data m1 = (write_data m)\<lparr>main_pool := (main_pool (write_data m))
            (entry := WriteData_Set
               (if new_mask \<noteq> NOT 0 then (new_data AND new_mask) OR (memory m addr AND NOT new_mask)
                else new_data) new_mask (main_pool (write_data m) entry))\<rparr> \<and>
         lock_table m1 = lock_table m \<and> this m1 = this m \<and> memory m1 = memory m"
proof -
  let ?pre = "(if ReadLock_Get (r_lock (lock_table m index)) > version m then
              (case Extend m of
                 (Inl e, m1) \<Rightarrow> (Some e, m1)
               | (Inr True, m1) \<Rightarrow> (None, m1)
               | (Inr False, m1) \<Rightarrow>
                   (case Rollback m1 of
                      (Some e, m2) \<Rightarrow> (Some e, m2)
                    | (None, m2) \<Rightarrow> (Some (TransactionError ''Inconsistent state after write'' True), m2)))
            else (None, m))"
  obtain r mB where pre: "?pre = (r, mB)" by (cases ?pre)
  with assms have r: "r = None"
    by (cases r) (simp_all add: WriteWord_store_def)
  have mB: "mB = m \<or> mB = m\<lparr>version := GetGlobalVersion m\<rparr>"
    using pre r
    by (auto simp: Extend_def Let_def split: if_splits sum.splits bool.splits prod.splits option.splits)
  from assms pre r
  have m1: "m1 = CmOnWrite (update_write_data entry (WriteData_Set
               (if new_mask \<noteq> NOT 0 then (new_data AND new_mask) OR (memory mB addr AND NOT new_mask)
                else new_data) new_mask) mB)"
    by (simp add: WriteWord_store_def Let_def)
  from mB show ?thesis
    by (auto simp: m1 CmOnWrite_def update_write_data_def GetIncGreedyVersion_def)
qed

lemma WriteWord_owned_existing:
  assumes "IsLockedBy (w_lock (lock_table m (GetLockIndex addr))) (this m)"
    and "Get WriteData_equals addr (write_data m) = Inr (Some entry)"
  shows "WriteWord m addr new_data new_mask =
           Some (Inr (), update_write_data entry (WriteData_Extend new_data new_mask) m)"
  using assms by (simp add: WriteWord_def WriteWord_owned_def Let_def)

lemma first_write_leaves_entry:
  assumes "WriteWord m addr d1 k1 = Some (Inr (), m1)"
  shows "IsLockedBy (w_lock (lock_table m1 (GetLockIndex addr))) (this m1) \<and>
         (\<exists>entry. Get WriteData_equals addr (write_data m1) = Inr (Some entry))"
proof (cases "IsLockedBy (w_lock (lock_table m (GetLockIndex addr))) (this m)")
  case True
  with assms have owned: "WriteWord_owned m addr d1 k1 = (Inr (), m1)"
    by (simp add: WriteWord_def Let_def)
  show ?thesis
  proof (cases "Get WriteData_equals addr (write_data m)")
    case (Inl e)
    with owned show ?thesis by (simp add: WriteWord_owned_def)
  next
    case (Inr found)
    show ?thesis
    proof (cases found)
      case (Some entry)
      with Inr owned have m1: "m1 = update_write_data entry (WriteData_Extend d1 k1) m"
        by (simp add: WriteWord_owned_def)
      have "Get_from WriteData_equals addr (write_data m1) 0 =
            Get_from WriteData_equals addr (write_data m) 0"
        by (rule Get_from_cong)
          (simp_all add: m1 update_write_data_def WriteData_equals_def WriteData_Extend_def)
      with Inr Some True m1 show ?thesis
        by (simp add: Get_def update_write_data_def)
    next
      case None
      obtain r wd where c: "Create WriteData_assign addr (write_data m) = (r, wd)"
        by (cases "Create WriteData_assign addr (write_data m)")
      with Inr None owned obtain entry where r: "r = Inr entry"
        by (cases r) (auto simp: WriteWord_owned_def)
      with Inr None owned c
      have m1: "m1 = update_write_data entry (WriteData_Set d1 k1) (m\<lparr>write_data := wd\<rparr>)"
        by (simp add: WriteWord_owned_def)
      from Create_Inr [OF c [unfolded r]]
      have n: "next_index (write_data m) < 255" and e: "entry = next_index (write_data m)"
        and wd: "wd = \<lparr>main_pool = (main_pool (write_data m))(next_index (write_data m) :=
              WriteData_assign addr (main_pool (write_data m) (next_index (write_data m)))),
            next_index = next_index (write_data m) + 1\<rparr>"
        by simp_all
      have "\<exists>e'. Get_from WriteData_equals addr (write_data m1) 0 = Inr (Some e') \<and> e' \<le> entry"
        by (rule Get_from_exists)
          (simp_all add: m1 e wd n update_write_data_def WriteData_equals_def WriteData_Set_def
            WriteData_assign_def)
      with True m1 show ?thesis
        by (auto simp: Get_def update_write_data_def)
    qed
  qed
next
  case False
  let ?index = "GetLockIndex addr"
  from assms False obtain r where acq: "WriteWord_acquire m ?index addr = Some r"
    by (cases "WriteWord_acquire m ?index addr") (auto simp: WriteWord_def Let_def)
  obtain res mA where r: "r = (res, mA)" by (cases r)
  with assms False acq obtain entry where res: "res = Inr entry"
    by (cases res) (auto simp: WriteWord_def Let_def)
  from assms False acq r res
  have store: "WriteWord_store mA ?index addr entry d1 k1 = (Inr (), m1)"
    by (simp add: WriteWord_def Let_def)
  from acquire_Inr [OF acq] r res have free: "w_lock (lock_table m ?index) = 0"
    by simp
  let ?mL = "m\<lparr>lock_table := (lock_table m)(?index := (lock_table m ?index)
                  \<lparr>w_lock := this m OR WriteLock_kLockMask\<rparr>)\<rparr>"
  from acquire_free [OF free, of addr] acq r res
  have "WriteWord_create ?mL ?index addr = (Inr entry, mA)" by simp
  from WriteWord_create_Inr [OF this]
  have n: "next_index (write_data m) < 255" and entry: "entry = next_index (write_data m)"
    and wdA: "write_data mA = \<lparr>main_pool = (main_pool (write_data m))
                    (next_index (write_data m) :=
                       WriteData_assign addr (main_pool (write_data m) (next_index (write_data m)))),
                  next_index = next_index (write_data m) + 1\<rparr>"
    and ltA: "lock_table mA = (lock_table m)(?index := (lock_table m ?index)
                  \<lparr>w_lock := this m OR WriteLock_kLockMask\<rparr>)"
    and thisA: "this mA = this m"
    by simp_all
  from WriteWord_store_Inr [OF store]
  have wd1: "write_data m1 = (write_data mA)\<lparr>main_pool := (main_pool (write_data mA))
            (entry := WriteData_Set
               (if k1 \<noteq> NOT 0 then (d1 AND k1) OR (memory mA addr AND NOT k1) else d1) k1
               (main_pool (write_data mA) entry))\<rparr>"
    and lt1: "lock_table m1 = lock_table mA" and this1: "this m1 = this mA"
    by simp_all
  have locked: "IsLockedBy (w_lock (lock_table m1 ?index)) (this m1)"
    by (simp add: lt1 this1 ltA thisA IsLockedBy_def)
  have "\<exists>e'. Get_from WriteData_equals addr (write_data m1) 0 = Inr (Some e') \<and> e' \<le> entry"
    by (rule Get_from_exists)
      (simp_all add: wd1 wdA entry n WriteData_equals_def WriteData_Set_def WriteData_assign_def)
  with locked show ?thesis
    by (auto simp: Get_def)
qed

text \<open>
  A first write to a stripe whose lock is free returns normally when both lists have room
  and the stripe's version is not newer than the transaction's.
\<close>

lemma owner_word_nonzero: "(owner :: size_t) OR WriteLock_kLockMask \<noteq> 0"
  by (simp add: WriteLock_kLockMask_def or_eq_0_iff)

lemma WriteWord_free_lock_returns:
  assumes free: "w_lock (lock_table m (GetLockIndex addr)) = 0"
    and ws: "next_index (write_set m) < 255"
    and wd: "next_index (write_data m) < 255"
    and cur: "\<not> ReadLock_Get (r_lock (lock_table m (GetLockIndex addr))) > version m"
  shows "\<not> IsLockedBy (w_lock (lock_table m (GetLockIndex addr))) (this m) \<and>
         (\<exists>m'. WriteWord m addr new_data new_mask = Some (Inr (), m'))"
proof -
  from free owner_word_nonzero [of "this m"]
  have nl: "\<not> IsLockedBy (w_lock (lock_table m (GetLockIndex addr))) (this m)"
    by (simp add: IsLockedBy_def)
  let ?mL = "m\<lparr>lock_table := (lock_table m)(GetLockIndex addr := (lock_table m (GetLockIndex addr))
                  \<lparr>w_lock := this m OR WriteLock_kLockMask\<rparr>)\<rparr>"
  have ws': "next_index (write_set ?mL) < 255" and wd': "next_index (write_data ?mL) < 255"
    using ws wd by simp_all
  from nl cur show ?thesis
    by (simp add: WriteWord_def Let_def acquire_free [OF free] WriteWord_create_ok [OF ws' wd']
        WriteWord_store_def ReadLock_Get_def)
qed

section \<open>The example runs\<close>

lemma write_rw0: "WriteWord rw0 0x1000 7 (- 1) = Some (Inr (), rw1)"
  by (simp add: rw1_def rw0_def engine0_def WriteWord_def lock_defs WriteWord_acquire.simps
      WriteWord_create_def Create_def GetEntry_ok zero_defs entry_defs Let_def
      WriteWord_store_def update_write_data_def CmOnWrite_def GetSize_def)

lemma commit_rw1: "Commit rw1 = (Inr (), committed1)"
  by (simp add: committed1_def rw1_def rw0_def engine0_def Commit_def state_defs Empty_def
      Commit_lock_def for_each_1 lock_r_lock_def lock_defs GetIncGlobalVersion_def
      Commit_validate_def Commit_store_def CommitData_def release_lock_def clear_buffers_def
      Clear_def zero_defs)

lemma begin_committed1: "BeginReadWrite committed1 = (Inr (), rw2)"
  by (simp add: rw2_def committed1_def rw1_def rw0_def engine0_def BeginReadWrite_def state_defs
      GetGlobalVersion_def)

lemma read_ro0: "ReadWord ro0 0x1000 = Some (Inr 0, ro1)"
  by (simp add: ro1_def ro0_def engine0_def ReadWord_def lock_defs ReadWord_sample.simps
      ReadLock_kLockMask_value Let_def state_defs ReadWord_validated_def GetOrCreate_def
      Get_from.simps zero_defs Create_def GetEntry_ok entry_defs)

lemma read_rw0: "ReadWord rw0 0x1000 = Some (Inr 0, rw_read)"
  by (simp add: rw_read_def rw0_def engine0_def ReadWord_def lock_defs ReadWord_sample.simps
      ReadLock_kLockMask_value Let_def state_defs ReadWord_validated_def GetOrCreate_def
      Get_from.simps zero_defs Create_def GetEntry_ok entry_defs)

lemma write_rw_read: "WriteWord rw_read 0x1008 9 (- 1) = Some (Inr (), rw_read_write)"
  by (simp add: rw_read_write_def rw_read_def rw0_def engine0_def WriteWord_def lock_defs
      WriteWord_acquire.simps WriteWord_create_def Create_def GetEntry_ok zero_defs entry_defs
      Let_def WriteWord_store_def update_write_data_def CmOnWrite_def GetSize_def)

section \<open>The read set after a validated read\<close>

lemma Rollback_read_set_pool:
  "main_pool (read_set (snd (Rollback m))) = main_pool (read_set m)"
proof -
  have "read_set (snd (for_each (write_set m) unlock_w_lock 0 m)) = read_set m"
    by (rule for_each_preserves) (simp add: unlock_w_lock_def)
  then show ?thesis
    by (cases "for_each (write_set m) unlock_w_lock 0 m")
      (auto simp: Rollback_def clear_buffers_def Clear_def split: option.splits)
qed

lemma GetOrCreate_old_version:
  "old_version (main_pool (snd (GetOrCreate ReadSetEntry_equals ReadSetEntry_assign index l)) n) =
   old_version (main_pool l n)"
  by (auto simp: GetOrCreate_def Create_def Let_def ReadSetEntry_assign_def
      split: sum.splits option.splits)

lemma Extend_read_set: "read_set (snd (Extend m)) = read_set m"
  by (auto simp: Extend_def Let_def split: sum.splits bool.splits)

lemma ReadWord_validated_old_version:
  "old_version (main_pool (read_set (snd (ReadWord_validated m index d v1))) n) =
   old_version (main_pool (read_set m) n)"
proof -
  obtain r rs where g: "GetOrCreate ReadSetEntry_equals ReadSetEntry_assign index (read_set m) = (r, rs)"
    by (cases "GetOrCreate ReadSetEntry_equals ReadSetEntry_assign index (read_set m)")
  from GetOrCreate_old_version [of index "read_set m" n] g
  have rs: "old_version (main_pool rs n) = old_version (main_pool (read_set m) n)"
    by simp
  let ?m1 = "m\<lparr>read_set := rs\<rparr>"
  obtain x m2 where e: "Extend ?m1 = (x, m2)" by (cases "Extend ?m1")
  from Extend_read_set [of ?m1] e have m2: "read_set m2 = rs" by simp
  obtain y m3 where rb: "Rollback m2 = (y, m3)" by (cases "Rollback m2")
  from Rollback_read_set_pool [of m2] rb m2 have m3: "main_pool (read_set m3) = main_pool rs"
    by simp
  from g e rb rs m2 m3 show ?thesis
    by (auto simp: ReadWord_validated_def Let_def split: sum.splits bool.splits option.splits)
qed

lemma ReadWord_keeps_old_version:
  assumes "ReadWord m addr = Some (r, m')"
  shows "old_version (main_pool (read_set m') n) = old_version (main_pool (read_set m) n)"
proof (cases "IsLockedBy (w_lock (lock_table m (GetLockIndex addr))) (this m)")
  case True
  with assms have "m' = m"
    by (auto simp: ReadWord_def Let_def split: sum.splits option.splits)
  then show ?thesis by simp
next
  case False
  with assms obtain d v1 where "ReadWord_validated m (GetLockIndex addr) d v1 = (r, m')"
    by (auto simp: ReadWord_def Let_def split: option.splits)
  then have "m' = snd (ReadWord_validated m (GetLockIndex addr) d v1)"
    by simp
  then show ?thesis
    by (simp add: ReadWord_validated_old_version)
qed

text \<open>
  C1. A validated read should leave, in the read set, an entry for the stripe whose
  stored version is the version \<open>v1\<close> the double-sample loop read the word under.
  \<open>ReadWord\<close> fetches the entry with \<open>GetOrCreate\<close> and never calls
  \<open>SetVersion\<close>, so the entry keeps the version field the page held
  (\<open>ReadWord_keeps_old_version\<close>). In the run below the stripe of \<open>0x1000\<close> is at
  version 1 after the first commit; the loop samples version 1 and reads the word 7;
  \<open>ReadWord\<close> returns 7 and the read set has one entry, for that stripe, whose stored
  version is 0.
\<close>

theorem ReadWord_drops_sampled_version:
  "ReadWord_sample rw2 (GetLockIndex 0x1000) 0x1000
     (ReadLock_Get (r_lock (lock_table rw2 (GetLockIndex 0x1000)))) = Some (7, 1) \<and>
   (\<exists>m'. ReadWord rw2 0x1000 = Some (Inr 7, m') \<and>
      GetSize (read_set m') = 1 \<and>
      rs_index (main_pool (read_set m') 0) = GetLockIndex 0x1000 \<and>
      old_version (main_pool (read_set m') 0) = 0)"
  by (simp add: rw2_def committed1_def rw1_def rw0_def engine0_def ReadWord_def lock_defs
      ReadWord_sample.simps ReadLock_kLockMask_value Let_def ReadWord_validated_def
      GetOrCreate_def Get_from.simps zero_defs Create_def GetEntry_ok entry_defs Clear_def
      GetSize_def)

section \<open>Commit with a read set that fails validation\<close>

text \<open>
  After a retry-eligible failure the retry loop of \<open>Atomic\<close> calls
  \<open>BeginReadWrite\<close> again, which backs off exactly when it finds the state still
  \<open>READ_WRITE_RUNNING\<close>.
\<close>

lemma BeginReadWrite_restart:
  "state m = READ_WRITE_RUNNING \<Longrightarrow>
   BeginReadWrite m =
     (Inr (), (CmOnRestart m)\<lparr>version := GetGlobalVersion (CmOnRestart m),
                              state := READ_WRITE_RUNNING\<rparr>)"
  by (simp add: BeginReadWrite_def Let_def)

text \<open>
  C2 (as amended). Take a \<open>Commit\<close> in \<open>READ_WRITE_RUNNING\<close> with a write set that
  is not empty and within its capacity, let \<open>new_version\<close> and \<open>m1\<close> be the
  incremented global version and the state after the read-version lock bits were set,
  and let \<open>new_version > version_ + 1\<close> and the validation of the read set fail. Then
  \<open>Commit\<close> throws the \<open>TransactionError\<close> "Failed to validate read set" with
  \<open>shouldRetry\<close> true; the stripe of every write-set entry has its read-version lock
  bit clear and its write lock free; the three buffers are empty; and the state is
  still \<open>READ_WRITE_RUNNING\<close>.
\<close>

theorem Commit_validation_failure:
  assumes rw: "state m = READ_WRITE_RUNNING"
    and ne: "\<not> Empty (write_set m)"
    and cap: "next_index (write_set m) \<le> kNumEntries"
    and lock: "Commit_lock m = (None, new_version, m1)"
    and newer: "new_version > version m + 1"
    and invalid: "ValidateReadSet m1 = Inr False"
  shows "\<exists>m'. Commit m = (Inl (TransactionError ''Failed to validate read set'' True), m') \<and>
           shouldRetry (TransactionError ''Failed to validate read set'' True) \<and>
           (\<forall>j<next_index (write_set m).
              r_lock (lock_table m' (ws_index (main_pool (write_set m) j))) AND ReadLock_kLockMask = 0 \<and>
              \<not> IsLocked (w_lock (lock_table m' (ws_index (main_pool (write_set m) j))))) \<and>
           Empty (read_set m') \<and> Empty (write_set m') \<and> Empty (write_data m') \<and>
           state m' = READ_WRITE_RUNNING"
proof -
  from cap have cap': "next_index (write_set m) \<le> 255"
    by (simp add: kNumEntries_def)
  let ?S = "\<lambda>k. \<exists>j. 0 \<le> j \<and> j < next_index (write_set m) \<and> ws_index (main_pool (write_set m) j) = k"
  from lock lock_loop [OF cap']
  have ws1: "write_set m1 = write_set m" and st1: "state m1 = state m" and v1: "version m1 = version m"
    by (auto simp: Commit_lock_def GetIncGlobalVersion_def)
  from cap' ws1 have cap1: "next_index (write_set m1) \<le> 255"
    by simp
  let ?m2 = "m1\<lparr>lock_table := (\<lambda>k. if ?S k
       then (lock_table m1 k)\<lparr>r_lock := ReadLock_Unlock (r_lock (lock_table m1 k))\<rparr>
       else lock_table m1 k)\<rparr>"
  have u: "for_each (write_set m1) unlock_r_lock 0 m1 = (None, ?m2)"
    using unlock_r_loop [OF cap1, of m1] by (simp add: ws1)
  let ?m3 = "?m2\<lparr>lock_table := (\<lambda>k. if ?S k
       then (lock_table ?m2 k)\<lparr>w_lock := WriteLock_Unlock (w_lock (lock_table ?m2 k))\<rparr>
       else lock_table ?m2 k)\<rparr>"
  have cap2: "next_index (write_set ?m2) \<le> 255"
    using cap1 by simp
  have w: "for_each (write_set ?m2) unlock_w_lock 0 ?m2 = (None, ?m3)"
    using unlock_w_loop [OF cap2, of ?m2] by (simp add: ws1)
  have rb: "Rollback ?m2 = (None, clear_buffers ?m3)"
    by (simp only: Rollback_def w prod.case option.case)
  have ab: "Commit_abort m1 =
      (Some (TransactionError ''Failed to validate read set'' True), clear_buffers ?m3)"
    by (simp only: Commit_abort_def u rb prod.case option.case)
  from newer v1 invalid ab
  have va: "Commit_validate new_version m1 =
      (Some (TransactionError ''Failed to validate read set'' True), clear_buffers ?m3)"
    by (simp add: Commit_validate_def)
  from rw ne lock va
  have c: "Commit m = (Inl (TransactionError ''Failed to validate read set'' True), clear_buffers ?m3)"
    by (simp add: Commit_def state_defs)
  have locks: "\<forall>j<next_index (write_set m).
      r_lock (lock_table (clear_buffers ?m3) (ws_index (main_pool (write_set m) j))) AND
        ReadLock_kLockMask = 0 \<and>
      \<not> IsLocked (w_lock (lock_table (clear_buffers ?m3) (ws_index (main_pool (write_set m) j))))"
  proof (intro allI impI)
    fix j assume j: "j < next_index (write_set m)"
    then have "?S (ws_index (main_pool (write_set m) j))" by auto
    then show "r_lock (lock_table (clear_buffers ?m3) (ws_index (main_pool (write_set m) j))) AND
        ReadLock_kLockMask = 0 \<and>
      \<not> IsLocked (w_lock (lock_table (clear_buffers ?m3) (ws_index (main_pool (write_set m) j))))"
      by (simp add: clear_buffers_def lock_bit_cleared IsLocked_def WriteLock_Unlock_def)
  qed
  have bufs: "Empty (read_set (clear_buffers ?m3)) \<and> Empty (write_set (clear_buffers ?m3)) \<and>
      Empty (write_data (clear_buffers ?m3))"
    by (simp add: clear_buffers_def Empty_def Clear_def)
  have st: "state (clear_buffers ?m3) = READ_WRITE_RUNNING"
    using rw st1 by (simp add: clear_buffers_def)
  from c locks bufs st show ?thesis
    by (intro exI [of _ "clear_buffers ?m3"]) simp
qed

lemma c2_lock:
  "Commit_lock c2_state =
     (None, 2, c2_state\<lparr>lock_table := (lock_table c2_state)(8 := \<lparr>r_lock = 0x8000000000000000, w_lock = 0x41\<rparr>),
                        global_version := 2\<rparr>)"
  by (simp add: c2_state_def rw_read_write_def rw_read_def rw0_def engine0_def Commit_lock_def
      for_each_1 lock_r_lock_def ReadLock_Lock_def ReadLock_kLockMask_value GetIncGlobalVersion_def)

lemma c2_invalid:
  "ValidateReadSet (c2_state\<lparr>lock_table := (lock_table c2_state)(8 := \<lparr>r_lock = 0x8000000000000000, w_lock = 0x41\<rparr>),
                        global_version := 2\<rparr>) = Inr False"
  by (simp add: c2_state_def rw_read_write_def rw_read_def rw0_def engine0_def ValidateReadSet_def
      ValidateReadSet_from.simps GetEntry_ok Let_def lock_defs ReadLock_kLockMask_value)

theorem Commit_validation_failure_witness:
  "state c2_state = READ_WRITE_RUNNING \<and> \<not> Empty (write_set c2_state) \<and>
   next_index (write_set c2_state) \<le> kNumEntries \<and>
   (2 :: Version) > version c2_state + 1 \<and>
   (\<exists>m'. Commit c2_state = (Inl (TransactionError ''Failed to validate read set'' True), m') \<and>
      r_lock (lock_table m' 8) AND ReadLock_kLockMask = 0 \<and>
      \<not> IsLocked (w_lock (lock_table m' 8)) \<and>
      Empty (read_set m') \<and> Empty (write_set m') \<and> Empty (write_data m') \<and>
      state m' = READ_WRITE_RUNNING)"
proof -
  have h1: "state c2_state = READ_WRITE_RUNNING"
    by (simp add: c2_state_def rw_read_write_def rw_read_def rw0_def)
  have h2: "\<not> Empty (write_set c2_state)"
    by (simp add: c2_state_def rw_read_write_def Empty_def)
  have h3: "next_index (write_set c2_state) \<le> kNumEntries"
    by (simp add: c2_state_def rw_read_write_def kNumEntries_def)
  have h4: "(2 :: Version) > version c2_state + 1"
    by (simp add: c2_state_def rw_read_write_def rw_read_def rw0_def engine0_def)
  have n: "next_index (write_set c2_state) = 1"
    and e: "ws_index (main_pool (write_set c2_state) 0) = 8"
    by (simp_all add: c2_state_def rw_read_write_def)
  from Commit_validation_failure [OF h1 h2 h3 c2_lock h4 c2_invalid] n e
  have "\<exists>m'. Commit c2_state = (Inl (TransactionError ''Failed to validate read set'' True), m') \<and>
      r_lock (lock_table m' 8) AND ReadLock_kLockMask = 0 \<and>
      \<not> IsLocked (w_lock (lock_table m' 8)) \<and>
      Empty (read_set m') \<and> Empty (write_set m') \<and> Empty (write_data m') \<and>
      state m' = READ_WRITE_RUNNING"
    by auto
  with h1 h2 h3 h4 show ?thesis
    by blast
qed

text \<open>
  The same run against C2 as first stated: the commit of \<open>c2_state\<close> is a read-write
  commit with a write set that is not empty, \<open>new_version\<close> exceeds
  \<open>version_ + 1\<close> and the validation fails; the retry-eligible error is thrown, and
  the state afterwards is \<open>READ_WRITE_RUNNING\<close>, not \<open>INITIALIZED\<close>.
\<close>

theorem Commit_validation_failure_not_INITIALIZED:
  "state c2_state = READ_WRITE_RUNNING \<and> \<not> Empty (write_set c2_state) \<and>
   fst (snd (Commit_lock c2_state)) > version c2_state + 1 \<and>
   ValidateReadSet (snd (snd (Commit_lock c2_state))) = Inr False \<and>
   fst (Commit c2_state) = Inl (TransactionError ''Failed to validate read set'' True) \<and>
   state (snd (Commit c2_state)) = READ_WRITE_RUNNING \<and>
   state (snd (Commit c2_state)) \<noteq> INITIALIZED"
proof -
  have h1: "state c2_state = READ_WRITE_RUNNING"
    by (simp add: c2_state_def rw_read_write_def rw_read_def rw0_def)
  have h2: "\<not> Empty (write_set c2_state)"
    by (simp add: c2_state_def rw_read_write_def Empty_def)
  have h4: "fst (snd (Commit_lock c2_state)) > version c2_state + 1"
    by (simp add: c2_lock) (simp add: c2_state_def rw_read_write_def rw_read_def rw0_def engine0_def)
  have h5: "ValidateReadSet (snd (snd (Commit_lock c2_state))) = Inr False"
    by (simp add: c2_lock c2_invalid)
  let ?m1 = "c2_state\<lparr>lock_table := (lock_table c2_state)(8 := \<lparr>r_lock = 0x8000000000000000, w_lock = 0x41\<rparr>),
                        global_version := 2\<rparr>"
  have n: "next_index (write_set c2_state) = 1"
    by (simp add: c2_state_def rw_read_write_def)
  have ab: "fst (Commit_abort ?m1) = Some (TransactionError ''Failed to validate read set'' True) \<and>
      state (snd (Commit_abort ?m1)) = READ_WRITE_RUNNING"
    by (simp add: Commit_abort_def for_each_1 n Rollback_def clear_buffers_def unlock_r_lock_def
        unlock_w_lock_def h1)
  have v: "(2 :: Version) > version ?m1 + 1"
    by (simp add: c2_state_def rw_read_write_def rw_read_def rw0_def engine0_def)
  from v c2_invalid have va: "Commit_validate 2 ?m1 = Commit_abort ?m1"
    by (simp add: Commit_validate_def)
  obtain e m' where cab: "Commit_abort ?m1 = (e, m')" by (cases "Commit_abort ?m1")
  with ab have e: "e = Some (TransactionError ''Failed to validate read set'' True)"
    and m': "state m' = READ_WRITE_RUNNING" by simp_all
  from h1 h2 c2_lock va cab e
  have c: "Commit c2_state = (Inl (TransactionError ''Failed to validate read set'' True), m')"
    by (simp add: Commit_def state_defs)
  have ne: "READ_WRITE_RUNNING \<noteq> INITIALIZED"
    by (simp add: state_defs)
  from h1 h2 h4 h5 c m' ne show ?thesis
    by simp
qed

section \<open>Commit of a read-only transaction\<close>

lemma read_only_Commit_returns_early:
  "state m = READ_ONLY_RUNNING \<Longrightarrow> Commit m = (Inr (), m\<lparr>state := INITIALIZED\<rparr>)"
  by (simp add: Commit_def state_defs)

text \<open>
  C3. \<open>Commit\<close> in \<open>READ_ONLY_RUNNING\<close> should succeed, clear the three buffers
  and set \<open>INITIALIZED\<close>. The read-only branch sets the state and returns before the
  three \<open>Clear\<close> calls (\<open>read_only_Commit_returns_early\<close>). In the run below a read-only
  transaction reads one word, which puts one entry into the read set, and commits: the
  call succeeds, the state is \<open>INITIALIZED\<close> and the read set still has its entry.
\<close>

theorem Commit_read_only_keeps_read_set:
  "ReadWord ro0 0x1000 = Some (Inr 0, ro1) \<and>
   state ro1 = READ_ONLY_RUNNING \<and>
   Commit ro1 = (Inr (), ro1\<lparr>state := INITIALIZED\<rparr>) \<and>
   \<not> Empty (read_set (snd (Commit ro1))) \<and>
   GetSize (read_set (snd (Commit ro1))) = 1"
  by (simp add: read_ro0) (simp add: ro1_def ro0_def engine0_def Commit_def state_defs Empty_def GetSize_def)

section \<open>ReadWord on a stripe the engine has locked\<close>

text \<open>
  C4. When the engine owns the write lock of the stripe of \<open>addr\<close>, \<open>ReadWord\<close>
  should find a write-data entry for \<open>addr\<close> and return its data word. Addresses
  \<open>0x1000\<close> and \<open>0x2000\<close> share stripe 0. In the run below the engine writes
  \<open>0x1000\<close>, which gives it the lock of stripe 0, and then reads \<open>0x2000\<close>: the
  lock is its own, the write data has no entry for \<open>0x2000\<close>, and the
  \<open>assert(entry != nullptr)\<close> of \<open>ReadWord\<close> fails.
\<close>

theorem ReadWord_other_address_of_owned_stripe:
  "WriteWord rw0 0x1000 7 (- 1) = Some (Inr (), rw1) \<and>
   IsLockedBy (w_lock (lock_table rw1 (GetLockIndex 0x2000))) (this rw1) \<and>
   Get WriteData_equals 0x2000 (write_data rw1) = Inr None \<and>
   ReadWord rw1 0x2000 = Some (Inl (AssertFailed ''entry != nullptr''), rw1)"
  by (simp add: write_rw0)
    (simp add: rw1_def rw0_def engine0_def ReadWord_def lock_defs Get_def Get_from.simps
      GetEntry_ok entry_defs Let_def)

section \<open>Commit with an empty write set\<close>

text \<open>
  C5. \<open>Commit\<close> of a read-write transaction whose write set is empty returns normally,
  clears the three buffers and sets \<open>INITIALIZED\<close>; the global version and the target
  memory are as before.
\<close>

theorem Commit_empty_write_set:
  assumes "state m = READ_WRITE_RUNNING" and "Empty (write_set m)"
  shows "Commit m = (Inr (), (clear_buffers m)\<lparr>state := INITIALIZED\<rparr>) \<and>
         global_version (snd (Commit m)) = global_version m \<and>
         memory (snd (Commit m)) = memory m"
  using assms by (simp add: Commit_def state_defs clear_buffers_def)

theorem Commit_empty_write_set_witness:
  "state rw0 = READ_WRITE_RUNNING \<and> Empty (write_set rw0) \<and>
   fst (Commit rw0) = Inr () \<and>
   global_version (snd (Commit rw0)) = global_version rw0 \<and>
   memory (snd (Commit rw0)) = memory rw0"
proof -
  have h1: "state rw0 = READ_WRITE_RUNNING"
    by (simp add: rw0_def)
  have h2: "Empty (write_set rw0)"
    by (simp add: rw0_def engine0_def zero_defs Empty_def)
  from Commit_empty_write_set [OF h1 h2] h1 h2 show ?thesis
    by (simp add: clear_buffers_def)
qed

section \<open>Repeated writes to one address\<close>

text \<open>
  C6. After a \<open>WriteWord\<close> to \<open>addr\<close> that returned normally, the write data has
  an entry for \<open>addr\<close>, and a second \<open>WriteWord(addr, d2, k2)\<close> returns normally,
  creates no entry and replaces that entry's data by \<open>(old_data & ~k2) | (d2 & k2)\<close>
  and its mask by \<open>old_mask | k2\<close>; every other entry is as before.
\<close>

theorem WriteWord_second_write_merges:
  assumes "WriteWord m addr d1 k1 = Some (Inr (), m1)"
  shows "\<exists>entry m2.
           Get WriteData_equals addr (write_data m1) = Inr (Some entry) \<and>
           wd_address (main_pool (write_data m1) entry) = addr \<and>
           WriteWord m1 addr d2 k2 = Some (Inr (), m2) \<and>
           next_index (write_data m2) = next_index (write_data m1) \<and>
           main_pool (write_data m2) =
             (main_pool (write_data m1))(entry :=
                \<lparr>wd_address = addr,
                 wd_data = (wd_data (main_pool (write_data m1) entry) AND NOT k2) OR (d2 AND k2),
                 wd_mask = wd_mask (main_pool (write_data m1) entry) OR k2\<rparr>)"
proof -
  from first_write_leaves_entry [OF assms] obtain entry
    where locked: "IsLockedBy (w_lock (lock_table m1 (GetLockIndex addr))) (this m1)"
      and found: "Get WriteData_equals addr (write_data m1) = Inr (Some entry)"
    by blast
  from found have a: "wd_address (main_pool (write_data m1) entry) = addr"
    using Get_from_Some [of WriteData_equals addr "write_data m1" 0 entry]
    by (simp add: Get_def WriteData_equals_def)
  let ?m2 = "update_write_data entry (WriteData_Extend d2 k2) m1"
  have w: "WriteWord m1 addr d2 k2 = Some (Inr (), ?m2)"
    by (rule WriteWord_owned_existing [OF locked found])
  have n: "next_index (write_data ?m2) = next_index (write_data m1)"
    by (simp add: update_write_data_def)
  have p: "main_pool (write_data ?m2) =
             (main_pool (write_data m1))(entry :=
                \<lparr>wd_address = addr,
                 wd_data = (wd_data (main_pool (write_data m1) entry) AND NOT k2) OR (d2 AND k2),
                 wd_mask = wd_mask (main_pool (write_data m1) entry) OR k2\<rparr>)"
  proof -
    obtain old where old: "main_pool (write_data m1) entry = old" by simp
    from a old have "old\<lparr>wd_data := (wd_data old AND NOT k2) OR (d2 AND k2),
                         wd_mask := wd_mask old OR k2\<rparr> =
        \<lparr>wd_address = addr, wd_data = (wd_data old AND NOT k2) OR (d2 AND k2),
         wd_mask = wd_mask old OR k2\<rparr>"
      by (cases old) simp
    with old show ?thesis
      by (simp add: update_write_data_def WriteData_Extend_def)
  qed
  from found a w n p show ?thesis by blast
qed

theorem WriteWord_second_write_merges_witness:
  "WriteWord rw0 0x1000 7 (- 1) = Some (Inr (), rw1) \<and>
   Get WriteData_equals 0x1000 (write_data rw1) = Inr (Some 0) \<and>
   (\<exists>m2. WriteWord rw1 0x1000 0x0100 0xFF00 = Some (Inr (), m2) \<and>
      next_index (write_data m2) = 1 \<and>
      main_pool (write_data m2) 0 = \<lparr>wd_address = 0x1000, wd_data = 0x0107, wd_mask = - 1\<rparr>)"
proof -
  have g: "Get WriteData_equals 0x1000 (write_data rw1) = Inr (Some 0)"
    by (simp add: rw1_def Get_def Get_from.simps GetEntry_ok WriteData_equals_def)
  have old: "main_pool (write_data rw1) 0 = \<lparr>wd_address = 0x1000, wd_data = 7, wd_mask = - 1\<rparr>"
    and n: "next_index (write_data rw1) = 1"
    by (simp_all add: rw1_def)
  have v: "(7 AND NOT 0xFF00) OR (0x0100 AND 0xFF00) = (0x0107 :: 64 word)"
    by simp
  from WriteWord_second_write_merges [OF write_rw0, of "0x0100" "0xFF00"] g
  obtain m2 where w: "WriteWord rw1 0x1000 0x0100 0xFF00 = Some (Inr (), m2)"
    and n2: "next_index (write_data m2) = next_index (write_data rw1)"
    and p: "main_pool (write_data m2) =
             (main_pool (write_data rw1))(0 :=
                \<lparr>wd_address = 0x1000,
                 wd_data = (wd_data (main_pool (write_data rw1) 0) AND NOT 0xFF00) OR (0x0100 AND 0xFF00),
                 wd_mask = wd_mask (main_pool (write_data rw1) 0) OR 0xFF00\<rparr>)"
    by auto
  from p old v have "main_pool (write_data m2) 0 =
      \<lparr>wd_address = 0x1000, wd_data = 0x0107, wd_mask = - 1\<rparr>"
    by simp
  with w n2 n g show ?thesis
    by (auto simp: write_rw0)
qed

section \<open>The first write to a stripe\<close>

text \<open>
  C7. A \<open>WriteWord(addr, data, mask)\<close> that finds the stripe's write lock not its own
  and returns normally has acquired the lock (it was free before the call and is the
  engine's after it) and created one new write-data entry, at the old end of the list,
  for \<open>addr\<close> and with \<open>mask\<close>. If \<open>mask\<close> is not all-ones the entry's data is
  \<open>(data & mask) | (*addr & ~mask)\<close>, with \<open>*addr\<close> the word in memory; if
  \<open>mask\<close> is all-ones the data is \<open>data\<close>.
\<close>

theorem WriteWord_first_write:
  assumes "\<not> IsLockedBy (w_lock (lock_table m (GetLockIndex addr))) (this m)"
    and "WriteWord m addr new_data new_mask = Some (Inr (), m')"
  shows "w_lock (lock_table m (GetLockIndex addr)) = 0 \<and>
         IsLockedBy (w_lock (lock_table m' (GetLockIndex addr))) (this m') \<and>
         next_index (write_data m') = next_index (write_data m) + 1 \<and>
         wd_address (main_pool (write_data m') (next_index (write_data m))) = addr \<and>
         wd_mask (main_pool (write_data m') (next_index (write_data m))) = new_mask \<and>
         (new_mask \<noteq> NOT 0 \<longrightarrow>
            wd_data (main_pool (write_data m') (next_index (write_data m))) =
              (new_data AND new_mask) OR (memory m addr AND NOT new_mask)) \<and>
         (new_mask = NOT 0 \<longrightarrow>
            wd_data (main_pool (write_data m') (next_index (write_data m))) = new_data)"
proof -
  let ?index = "GetLockIndex addr"
  from assms obtain r where acq: "WriteWord_acquire m ?index addr = Some r"
    by (cases "WriteWord_acquire m ?index addr") (auto simp: WriteWord_def Let_def)
  obtain res mA where r: "r = (res, mA)" by (cases r)
  with assms acq obtain entry where res: "res = Inr entry"
    by (cases res) (auto simp: WriteWord_def Let_def)
  from assms acq r res
  have store: "WriteWord_store mA ?index addr entry new_data new_mask = (Inr (), m')"
    by (simp add: WriteWord_def Let_def)
  from acquire_Inr [OF acq] r res have free: "w_lock (lock_table m ?index) = 0"
    by simp
  let ?mL = "m\<lparr>lock_table := (lock_table m)(?index := (lock_table m ?index)
                  \<lparr>w_lock := this m OR WriteLock_kLockMask\<rparr>)\<rparr>"
  from acquire_free [OF free, of addr] acq r res
  have "WriteWord_create ?mL ?index addr = (Inr entry, mA)" by simp
  from WriteWord_create_Inr [OF this]
  have entry: "entry = next_index (write_data m)"
    and wdA: "write_data mA = \<lparr>main_pool = (main_pool (write_data m))
                    (next_index (write_data m) :=
                       WriteData_assign addr (main_pool (write_data m) (next_index (write_data m)))),
                  next_index = next_index (write_data m) + 1\<rparr>"
    and memA: "memory mA = memory m"
    by simp_all
  from first_write_leaves_entry [OF assms(2)]
  have owned: "IsLockedBy (w_lock (lock_table m' (GetLockIndex addr))) (this m')"
    by simp
  from WriteWord_store_Inr [OF store] entry wdA memA free owned show ?thesis
    by (simp add: WriteData_Set_def WriteData_assign_def)
qed

theorem WriteWord_first_write_witness:
  "\<not> IsLockedBy (w_lock (lock_table rw_mem (GetLockIndex 0x1000))) (this rw_mem) \<and>
   (\<exists>m'. WriteWord rw_mem 0x1000 0xABCD 0xFF00 = Some (Inr (), m') \<and>
      next_index (write_data m') = 1 \<and>
      wd_address (main_pool (write_data m') 0) = 0x1000 \<and>
      wd_mask (main_pool (write_data m') 0) = 0xFF00 \<and>
      wd_data (main_pool (write_data m') 0) = 0xAB34) \<and>
   \<not> IsLockedBy (w_lock (lock_table rw0 (GetLockIndex 0x1000))) (this rw0) \<and>
   WriteWord rw0 0x1000 7 (- 1) = Some (Inr (), rw1) \<and>
   wd_data (main_pool (write_data rw1) 0) = 7"
proof -
  have h1: "\<not> IsLockedBy (w_lock (lock_table rw_mem (GetLockIndex 0x1000))) (this rw_mem)"
    by (simp add: rw_mem_def rw0_def engine0_def lock_defs)
  have "\<exists>m'. WriteWord rw_mem 0x1000 0xABCD 0xFF00 = Some (Inr (), m')"
    by (simp add: rw_mem_def rw0_def engine0_def WriteWord_def lock_defs WriteWord_acquire.simps
        WriteWord_create_def Create_def GetEntry_ok zero_defs entry_defs Let_def
        WriteWord_store_def update_write_data_def CmOnWrite_def GetSize_def)
  then obtain m' where h2: "WriteWord rw_mem 0x1000 0xABCD 0xFF00 = Some (Inr (), m')" ..
  have n: "next_index (write_data rw_mem) = 0" and mem: "memory rw_mem 0x1000 = 0x1234"
    by (simp_all add: rw_mem_def rw0_def engine0_def zero_defs)
  have v: "(0xABCD AND 0xFF00) OR (0x1234 AND NOT 0xFF00) = (0xAB34 :: 64 word)"
    by simp
  have ne: "(0xFF00 :: 64 word) \<noteq> NOT 0"
    by simp
  from WriteWord_first_write [OF h1 h2] n mem v ne
  have a: "next_index (write_data m') = 1 \<and>
      wd_address (main_pool (write_data m') 0) = 0x1000 \<and>
      wd_mask (main_pool (write_data m') 0) = 0xFF00 \<and>
      wd_data (main_pool (write_data m') 0) = 0xAB34"
    by simp
  have h3: "\<not> IsLockedBy (w_lock (lock_table rw0 (GetLockIndex 0x1000))) (this rw0)"
    by (simp add: rw0_def engine0_def lock_defs)
  have n0: "next_index (write_data rw0) = 0"
    by (simp add: rw0_def engine0_def zero_defs)
  from WriteWord_first_write [OF h3 write_rw0] n0
  have b: "wd_data (main_pool (write_data rw1) 0) = 7"
    by simp
  from h1 h2 a h3 b show ?thesis
    by (auto simp: write_rw0)
qed

section \<open>Capacity of the pooled lists\<close>

text \<open>
  C8. A pooled list has room for 255 entries. While fewer than 255 entries were created
  (\<open>next_index_\<close> is 0 to 254), \<open>Create\<close> succeeds and returns the entry with that
  index. From 255 on, \<open>Create\<close> throws \<open>std::runtime_error("Out of memory")\<close>, which is
  not a \<open>TransactionError\<close>, so the retry loops do not retry it. \<open>GetOrCreate\<close> of a
  key that is not in the list ends the same way as \<open>Create\<close>.
\<close>

theorem PooledList_capacity:
  "kNumEntries = 255 \<and>
   (next_index l < kNumEntries \<longrightarrow>
      fst (Create assign key l) = Inr (next_index l) \<and>
      next_index (snd (Create assign key l)) = next_index l + 1) \<and>
   (kNumEntries \<le> next_index l \<longrightarrow>
      fst (Create assign key l) = Inl (RuntimeError ''Out of memory'') \<and>
      \<not> shouldRetry (RuntimeError ''Out of memory'')) \<and>
   ((\<forall>j. j < next_index l \<and> j < kNumEntries \<longrightarrow> \<not> equals (main_pool l j) key) \<longrightarrow>
      fst (GetOrCreate equals assign key l) = fst (Create assign key l))"
proof -
  have a: "kNumEntries = 255" by (simp add: kNumEntries_def)
  have b: "next_index l < kNumEntries \<longrightarrow>
      fst (Create assign key l) = Inr (next_index l) \<and>
      next_index (snd (Create assign key l)) = next_index l + 1"
    by (simp add: a Create_ok)
  have c: "kNumEntries \<le> next_index l \<longrightarrow>
      fst (Create assign key l) = Inl (RuntimeError ''Out of memory'') \<and>
      \<not> shouldRetry (RuntimeError ''Out of memory'')"
    by (simp add: a Create_def GetEntry_full Let_def)
  have d: "(\<forall>j. j < next_index l \<and> j < kNumEntries \<longrightarrow> \<not> equals (main_pool l j) key) \<longrightarrow>
      fst (GetOrCreate equals assign key l) = fst (Create assign key l)"
  proof
    assume "\<forall>j. j < next_index l \<and> j < kNumEntries \<longrightarrow> \<not> equals (main_pool l j) key"
    then have "Get_from equals key l 0 =
       (if 0 < next_index l \<and> 255 < next_index l then Inl (RuntimeError ''Out of memory'')
        else Inr None)"
      by (intro Get_from_absent) (simp add: a)
    then show "fst (GetOrCreate equals assign key l) = fst (Create assign key l)"
      by (auto simp: GetOrCreate_def Create_def GetEntry_full Let_def)
  qed
  from a b c d show ?thesis by blast
qed

theorem PooledList_capacity_witness:
  "fst (Create WriteSetEntry_assign 5 (zero_write_set\<lparr>next_index := 254\<rparr>)) = Inr 254 \<and>
   fst (Create WriteData_assign 5 (zero_write_data\<lparr>next_index := 255\<rparr>)) =
     Inl (RuntimeError ''Out of memory'') \<and>
   fst (GetOrCreate ReadSetEntry_equals ReadSetEntry_assign 5 (zero_read_set\<lparr>next_index := 255\<rparr>)) =
     Inl (RuntimeError ''Out of memory'')"
proof -
  let ?l1 = "zero_write_set\<lparr>next_index := 254\<rparr>"
  let ?l2 = "zero_write_data\<lparr>next_index := 255\<rparr>"
  let ?l3 = "zero_read_set\<lparr>next_index := 255\<rparr>"
  have h1: "next_index ?l1 < kNumEntries"
    by (simp add: kNumEntries_def)
  have h2: "kNumEntries \<le> next_index ?l2"
    by (simp add: kNumEntries_def)
  have h3: "kNumEntries \<le> next_index ?l3"
    by (simp add: kNumEntries_def)
  have h4: "\<forall>j. j < next_index ?l3 \<and> j < kNumEntries \<longrightarrow>
      \<not> ReadSetEntry_equals (main_pool ?l3 j) 5"
    by (simp add: zero_read_set_def ReadSetEntry_equals_def)
  from h1 PooledList_capacity [where l = ?l1 and assign = WriteSetEntry_assign and key = 5
      and equals = WriteSetEntry_equals]
  have c1: "fst (Create WriteSetEntry_assign 5 ?l1) = Inr (next_index ?l1)"
    by blast
  from h2 PooledList_capacity [where l = ?l2 and assign = WriteData_assign and key = 5
      and equals = WriteData_equals]
  have c2: "fst (Create WriteData_assign 5 ?l2) = Inl (RuntimeError ''Out of memory'')"
    by blast
  from h3 h4 PooledList_capacity [where l = ?l3 and assign = ReadSetEntry_assign and key = 5
      and equals = ReadSetEntry_equals]
  have c3: "fst (GetOrCreate ReadSetEntry_equals ReadSetEntry_assign 5 ?l3) =
      Inl (RuntimeError ''Out of memory'')"
    by metis
  from c1 c2 c3 show ?thesis
    by simp
qed

section \<open>The promotion queries\<close>

text \<open>
  C9. The two queries depend on \<open>state_\<close> only. With the running bit clear both
  answer \<open>NO_RUNNING\<close>; in \<open>READ_WRITE_RUNNING\<close> both answer \<open>COMPATIBLE\<close>; in
  \<open>READ_ONLY_RUNNING\<close> \<open>IsReadOnlyCompatible\<close> answers \<open>COMPATIBLE\<close> and
  \<open>IsReadWriteCompatible\<close> answers \<open>INCOMPATIBLE\<close>.
\<close>

theorem promotion_queries:
  "(state m AND RUNNING_bit = NONE_mask \<longrightarrow>
      IsReadWriteCompatible m = NO_RUNNING \<and> IsReadOnlyCompatible m = NO_RUNNING) \<and>
   (state m = READ_WRITE_RUNNING \<longrightarrow>
      IsReadWriteCompatible m = COMPATIBLE \<and> IsReadOnlyCompatible m = COMPATIBLE) \<and>
   (state m = READ_ONLY_RUNNING \<longrightarrow>
      IsReadOnlyCompatible m = COMPATIBLE \<and> IsReadWriteCompatible m = INCOMPATIBLE)"
  by (simp add: IsReadWriteCompatible_def IsReadOnlyCompatible_def state_defs)

theorem promotion_queries_witness:
  "IsReadWriteCompatible engine0 = NO_RUNNING \<and> IsReadOnlyCompatible engine0 = NO_RUNNING \<and>
   IsReadWriteCompatible rw0 = COMPATIBLE \<and> IsReadOnlyCompatible rw0 = COMPATIBLE \<and>
   IsReadOnlyCompatible ro0 = COMPATIBLE \<and> IsReadWriteCompatible ro0 = INCOMPATIBLE"
  using promotion_queries [of engine0] promotion_queries [of rw0] promotion_queries [of ro0]
  by (simp add: engine0_def rw0_def ro0_def state_defs)

section \<open>The decision of the contention manager\<close>

text \<open>
  C10. \<open>CmShouldAbort(lock)\<close> returns true when the engine's own \<open>cm_ts_\<close> is the
  sentinel, and when the lock has an owner whose \<open>cm_ts_\<close> is smaller than the
  engine's; in every other case it returns false. The owner is the lock word with its
  lock bit (bit 0) cleared, and it is non-null when that word is not 0. The call changes
  nothing.
\<close>

theorem CmShouldAbort_decision:
  "GetOwner lock = lock AND NOT 1 \<and>
   fst (CmShouldAbort m lock) =
     (cm_ts m (this m) = - 1 \<or>
      (lock AND NOT 1 \<noteq> 0 \<and> cm_ts m (lock AND NOT 1) < cm_ts m (this m))) \<and>
   snd (CmShouldAbort m lock) = m"
  by (simp add: CmShouldAbort_def GetOwner_def WriteLock_kLockMask_def Version_max_def
      MarkAbort_def Let_def)

text \<open>
  At concrete lock words: the greedy engine with timestamp 5 aborts against the owner
  with timestamp 3, keeps spinning against the owner with timestamp 7 and against a
  lock word without owner, and the engine that is not greedy aborts.
\<close>

theorem CmShouldAbort_decision_witness:
  "GetOwner 0x101 = 0x100 \<and>
   fst (CmShouldAbort greedy5 0x101) = True \<and>
   fst (CmShouldAbort greedy5 0x201) = False \<and>
   fst (CmShouldAbort greedy5 0x1) = False \<and>
   fst (CmShouldAbort rw0 0x101) = True"
proof -
  have o1: "(0x101 :: size_t) AND NOT 1 = 0x100"
    and o2: "(0x201 :: size_t) AND NOT 1 = 0x200"
    and o3: "(0x1 :: size_t) AND NOT 1 = 0"
    by simp_all
  have ts: "cm_ts greedy5 (this greedy5) = 5" "cm_ts greedy5 0x100 = 3" "cm_ts greedy5 0x200 = 7"
    by (simp_all add: greedy5_def rw0_def engine0_def)
  have ts0: "cm_ts rw0 (this rw0) = - 1"
    by (simp add: rw0_def engine0_def Version_max_def)
  from CmShouldAbort_decision [where lock = "0x101" and m = greedy5] o1 ts
  have a: "GetOwner 0x101 = 0x100 \<and> fst (CmShouldAbort greedy5 0x101) = True"
    by simp
  from CmShouldAbort_decision [where lock = "0x201" and m = greedy5] o2 ts
  have b: "fst (CmShouldAbort greedy5 0x201) = False"
    by simp
  from CmShouldAbort_decision [where lock = "0x1" and m = greedy5] o3 ts
  have c: "fst (CmShouldAbort greedy5 0x1) = False"
    by simp
  from CmShouldAbort_decision [where lock = "0x101" and m = rw0] ts0
  have d: "fst (CmShouldAbort rw0 0x101) = True"
    by simp
  from a b c d show ?thesis
    by simp
qed

end
